theory Spec2Isabelle
  imports Complex_Main
begin

section \<open>Values exchanged with the proxy\<close>

text \<open>
  The harness \<^verbatim>\<open>scripts/test-mcp-proxy.py\<close> builds its requests as Python
  dictionaries and reads each response with \<^verbatim>\<open>json.loads\<close>. A Python string is a
  sequence of code points, the integers from 0 to \<open>0x10FFFF\<close>, the surrogates
  (\<open>0xD800\<close> to \<open>0xDFFF\<close>) among them: \<^verbatim>\<open>json.loads\<close> returns a lone surrogate
  for an escape such as \<open>\udc80\<close>. The string literals of the source are written
  \<open>str ''...''\<close>.
\<close>

type_synonym pystr = "int list"

definition str :: "string \<Rightarrow> pystr" where
  "str s = map of_char s"

definition newline :: int where
  "newline = 0x0A"

definition surrogate :: "int \<Rightarrow> bool" where
  "surrogate c \<longleftrightarrow> 0xD800 \<le> c \<and> c \<le> 0xDFFF"

text \<open>
  A value that \<^verbatim>\<open>json.loads\<close> can return is \<open>None\<close>, a \<open>bool\<close>, an \<open>int\<close>, a
  \<open>float\<close>, a \<open>str\<close>, a \<open>list\<close> or a \<open>dict\<close> with string keys. A finite float is
  represented by the rational number it denotes (every finite double is one); the three
  non-finite floats that \<^verbatim>\<open>json.loads\<close> accepts are constructors of their own. A
  dictionary is the list of its items, read with \<open>map_of\<close>.
\<close>

datatype pyfloat = Finite rat | PosInf | NegInf | NaN

datatype json =
    JNull
  | JBool bool
  | JInt int
  | JFloat pyfloat
  | JStr pystr
  | JList "json list"
  | JDict "(pystr \<times> json) list"

text \<open>
  The exceptions the harness can meet. \<open>AssertionError\<close> carries the static text of the
  failed assertion's message and, for the two messages that format
  \<^verbatim>\<open>response.get('error')\<close>, that value; \<open>KeyError\<close> carries the missing key,
  \<open>Exception\<close> the message of the bare \<^verbatim>\<open>raise Exception(...)\<close>.
  \<open>KeyboardInterrupt\<close> and \<open>SystemExit\<close> do not derive from \<open>Exception\<close>.
\<close>

datatype exn =
    AssertionError string "json option"
  | KeyError pystr
  | TypeError
  | JSONDecodeError
  | ValueError
  | RecursionError
  | Exception string
  | TimeoutExpired
  | FileNotFoundError
  | OSError
  | ConnectionError
  | Timeout
  | BrokenPipeError
  | UnicodeDecodeError
  | UnicodeEncodeError
  | KeyboardInterrupt
  | SystemExit

definition is_Exception :: "exn \<Rightarrow> bool" where
  "is_Exception e \<longleftrightarrow> e \<noteq> KeyboardInterrupt \<and> e \<noteq> SystemExit"

text \<open>How a call that does not return a value ends: it raises, or it never returns.\<close>

datatype stop = Raised exn | Blocked

subsection \<open>Python's operators on these values\<close>

definition bind_exn :: "exn + 'a \<Rightarrow> ('a \<Rightarrow> exn + 'b) \<Rightarrow> exn + 'b" where
  "bind_exn m f = (case m of Inl e \<Rightarrow> Inl e | Inr v \<Rightarrow> f v)"

text \<open>\<^verbatim>\<open>v[k]\<close> for a string key \<open>k\<close>: only a dictionary can be indexed by a string.\<close>

definition subscript :: "json \<Rightarrow> pystr \<Rightarrow> exn + json" where
  "subscript v k =
     (case v of
        JDict kvs \<Rightarrow> (case map_of kvs k of None \<Rightarrow> Inl (KeyError k) | Some x \<Rightarrow> Inr x)
      | _ \<Rightarrow> Inl TypeError)"

text \<open>\<^verbatim>\<open>d.get(k, fallback)\<close> on a dictionary \<open>d\<close>.\<close>

definition dict_get :: "json \<Rightarrow> pystr \<Rightarrow> json \<Rightarrow> json" where
  "dict_get d k fallback =
     (case d of
        JDict kvs \<Rightarrow> (case map_of kvs k of None \<Rightarrow> fallback | Some x \<Rightarrow> x)
      | _ \<Rightarrow> fallback)"

fun starts_with :: "pystr \<Rightarrow> pystr \<Rightarrow> bool" where
  "starts_with [] ys = True"
| "starts_with (x # xs) [] = False"
| "starts_with (x # xs) (y # ys) = (x = y \<and> starts_with xs ys)"

fun str_contains :: "pystr \<Rightarrow> pystr \<Rightarrow> bool" where
  "str_contains k [] = (k = [])"
| "str_contains k (c # cs) = (starts_with k (c # cs) \<or> str_contains k cs)"

text \<open>
  \<^verbatim>\<open>k in v\<close> for a string \<open>k\<close>: key membership in a dictionary, element
  membership in a list, the substring test in a string, and a \<open>TypeError\<close> for a value
  that is not a container.
\<close>

definition contains :: "pystr \<Rightarrow> json \<Rightarrow> exn + bool" where
  "contains k v =
     (case v of
        JDict kvs \<Rightarrow> Inr (k \<in> fst ` set kvs)
      | JList xs \<Rightarrow> Inr (JStr k \<in> set xs)
      | JStr s \<Rightarrow> Inr (str_contains k s)
      | _ \<Rightarrow> Inl TypeError)"

text \<open>\<^verbatim>\<open>v == s\<close> for a string literal \<open>s\<close>.\<close>

definition eq_str :: "json \<Rightarrow> pystr \<Rightarrow> bool" where
  "eq_str v s = (v = JStr s)"

text \<open>
  \<^verbatim>\<open>v == n\<close> for an integer literal \<open>n\<close>. Python compares numbers by value:
  \<open>bool\<close> is a subclass of \<open>int\<close> (\<open>True == 1\<close>, \<open>False == 0\<close>), and a float
  equals an integer when it denotes the same number.
\<close>

definition eq_int :: "json \<Rightarrow> int \<Rightarrow> bool" where
  "eq_int v n =
     (case v of
        JInt m \<Rightarrow> m = n
      | JBool b \<Rightarrow> (if b then 1 else 0) = n
      | JFloat f \<Rightarrow> (case f of Finite q \<Rightarrow> q = of_int n | _ \<Rightarrow> False)
      | _ \<Rightarrow> False)"

text \<open>
  \<^verbatim>\<open>assert c, msg\<close>; \<open>value\<close> is what the message formats besides its static
  text, if anything.
\<close>

definition py_assert :: "bool \<Rightarrow> string \<Rightarrow> json option \<Rightarrow> exn + unit" where
  "py_assert c msg value = (if c then Inr () else Inl (AssertionError msg value))"

text \<open>\<^verbatim>\<open>len(v)\<close>: defined for strings, lists and dictionaries.\<close>

definition py_len :: "json \<Rightarrow> exn + nat" where
  "py_len v =
     (case v of
        JDict kvs \<Rightarrow> Inr (card (fst ` set kvs))
      | JList xs \<Rightarrow> Inr (length xs)
      | JStr s \<Rightarrow> Inr (length s)
      | _ \<Rightarrow> Inl TypeError)"

text \<open>
  \<^verbatim>\<open>for x in v\<close>: the elements of a list, the keys of a dictionary, the
  one-character strings of a string.
\<close>

definition py_iter :: "json \<Rightarrow> exn + json list" where
  "py_iter v =
     (case v of
        JDict kvs \<Rightarrow> Inr (map JStr (remdups (map fst kvs)))
      | JList xs \<Rightarrow> Inr xs
      | JStr s \<Rightarrow> Inr (map (\<lambda>c. JStr [c]) s)
      | _ \<Rightarrow> Inl TypeError)"

text \<open>
  \<^verbatim>\<open>print(f"...{v}...")\<close> on a standard output that encodes as UTF-8 does. The
  static text of every message of the harness can be encoded. A formatted value goes
  through \<open>str()\<close>: a string is inserted as it is, so a lone surrogate in it makes
  \<^verbatim>\<open>print\<close> raise \<open>UnicodeEncodeError\<close>; every other value is rendered in ASCII
  (strings inside a list or a dictionary go through \<open>repr()\<close>, which escapes
  surrogates).
\<close>

definition unprintable :: "json \<Rightarrow> bool" where
  "unprintable v = (case v of JStr s \<Rightarrow> list_ex surrogate s | _ \<Rightarrow> False)"

definition py_print :: "json list \<Rightarrow> exn + unit" where
  "py_print values = (if list_ex unprintable values then Inl UnicodeEncodeError else Inr ())"

section \<open>The assertions of the four tests\<close>

text \<open>
  Lines 83 to 87 of \<^verbatim>\<open>main\<close>: the assertions on the response to
  \<^verbatim>\<open>initialize\<close>. The message of the third assertion formats
  \<^verbatim>\<open>response.get('error')\<close>.
\<close>

definition check_initialize :: "json \<Rightarrow> exn + unit" where
  "check_initialize response =
     bind_exn (subscript response (str ''jsonrpc'')) (\<lambda>v.
     bind_exn (py_assert (eq_str v (str ''2.0'')) ''Invalid JSON-RPC version'' None) (\<lambda>_.
     bind_exn (subscript response (str ''id'')) (\<lambda>i.
     bind_exn (py_assert (eq_int i 1) ''Invalid response ID'' None) (\<lambda>_.
     bind_exn (contains (str ''error'') response) (\<lambda>e.
     bind_exn (py_assert (\<not> e) ''Initialize failed''
                 (Some (dict_get response (str ''error'') JNull))) (\<lambda>_.
     bind_exn (subscript response (str ''result'')) (\<lambda>res.
     bind_exn (subscript res (str ''protocolVersion'')) (\<lambda>pv.
     bind_exn (py_assert (eq_str pv (str ''2024-11-05'')) ''Wrong protocol version'' None) (\<lambda>_.
     bind_exn (subscript response (str ''result'')) (\<lambda>res'.
     bind_exn (contains (str ''serverInfo'') res') (\<lambda>s.
     py_assert s ''Missing serverInfo'' None)))))))))))"

text \<open>
  Lines 110 and 111: the loop that prints each tool. The f-string evaluates
  \<^verbatim>\<open>tool['name']\<close> first, so an element that is not a dictionary with a
  \<open>name\<close> stops the loop with the exception of that subscript; for a dictionary
  \<^verbatim>\<open>tool.get\<close> cannot fail; then the line is printed.
\<close>

fun print_tools :: "json list \<Rightarrow> exn + unit" where
  "print_tools [] = Inr ()"
| "print_tools (tool # tools) =
     bind_exn (subscript tool (str ''name'')) (\<lambda>name.
     bind_exn (py_print [name, dict_get tool (str ''description'') (JStr (str ''No description''))])
       (\<lambda>_. print_tools tools))"

text \<open>Lines 101 to 112: the assertions on the response to \<^verbatim>\<open>tools/list\<close>.\<close>

definition check_tools_list :: "json \<Rightarrow> exn + unit" where
  "check_tools_list response =
     bind_exn (subscript response (str ''jsonrpc'')) (\<lambda>v.
     bind_exn (py_assert (eq_str v (str ''2.0'')) ''Invalid JSON-RPC version'' None) (\<lambda>_.
     bind_exn (subscript response (str ''id'')) (\<lambda>i.
     bind_exn (py_assert (eq_int i 2) ''Invalid response ID'' None) (\<lambda>_.
     bind_exn (contains (str ''error'') response) (\<lambda>e.
     bind_exn (py_assert (\<not> e) ''tools/list failed''
                 (Some (dict_get response (str ''error'') JNull))) (\<lambda>_.
     bind_exn (subscript response (str ''result'')) (\<lambda>res.
     bind_exn (contains (str ''tools'') res) (\<lambda>t.
     bind_exn (py_assert t ''Missing tools in result'' None) (\<lambda>_.
     bind_exn (subscript response (str ''result'')) (\<lambda>res'.
     bind_exn (subscript res' (str ''tools'')) (\<lambda>tools.
     bind_exn (py_len tools) (\<lambda>tool_count.
     bind_exn (py_iter tools) print_tools))))))))))))"

text \<open>
  Lines 128 to 136: the response to \<^verbatim>\<open>tools/call\<close>. When the response has an
  \<open>error\<close> member the harness prints \<^verbatim>\<open>response['error']['message']\<close>: the two
  subscripts can raise, and so can the \<^verbatim>\<open>print\<close>.
\<close>

definition check_tools_call :: "json \<Rightarrow> exn + unit" where
  "check_tools_call response =
     bind_exn (subscript response (str ''jsonrpc'')) (\<lambda>v.
     bind_exn (py_assert (eq_str v (str ''2.0'')) ''Invalid JSON-RPC version'' None) (\<lambda>_.
     bind_exn (subscript response (str ''id'')) (\<lambda>i.
     bind_exn (py_assert (eq_int i 3) ''Invalid response ID'' None) (\<lambda>_.
     bind_exn (contains (str ''error'') response) (\<lambda>e.
       if e then
         bind_exn (subscript response (str ''error'')) (\<lambda>err.
         bind_exn (subscript err (str ''message'')) (\<lambda>message. py_print [message]))
       else
         bind_exn (subscript response (str ''result'')) (\<lambda>res.
         bind_exn (contains (str ''content'') res) (\<lambda>c.
         py_assert c ''Missing content in result'' None)))))))"

text \<open>Lines 149 to 152: the response to the unknown method \<^verbatim>\<open>list_tools\<close>.\<close>

definition check_invalid_method :: "json \<Rightarrow> exn + unit" where
  "check_invalid_method response =
     bind_exn (subscript response (str ''jsonrpc'')) (\<lambda>v.
     bind_exn (py_assert (eq_str v (str ''2.0'')) ''Invalid JSON-RPC version'' None) (\<lambda>_.
     bind_exn (subscript response (str ''id'')) (\<lambda>i.
     bind_exn (py_assert (eq_int i 4) ''Invalid response ID'' None) (\<lambda>_.
     bind_exn (contains (str ''error'') response) (\<lambda>e.
     bind_exn (py_assert e ''Should have error for invalid method'' None) (\<lambda>_.
     bind_exn (subscript response (str ''error'')) (\<lambda>err.
     bind_exn (subscript err (str ''code'')) (\<lambda>code.
     py_assert (eq_int code (- 32601)) ''Wrong error code'' None))))))))"

section \<open>Serialising a request\<close>

text \<open>
  \<^verbatim>\<open>json.dumps(request)\<close> with the default arguments: \<open>ensure_ascii\<close>, the
  separators \<open>", "\<close> and \<open>": "\<close>, no indentation. The text of a float is Python's
  \<open>repr\<close>, which is taken as the parameter \<open>fr\<close>; no request of the harness contains a
  float. A \<open>JDict\<close> is written item by item, as a dictionary whose keys are distinct is.
\<close>

definition digit_char :: "int \<Rightarrow> int" where
  "digit_char n = 48 + n"

text \<open>The decimal digits of a non-negative integer.\<close>

function digits :: "int \<Rightarrow> pystr" where
  "digits n = (if n < 10 then [digit_char n] else digits (n div 10) @ [digit_char (n mod 10)])"
  by pat_completeness auto
termination
  by (relation "measure nat") auto

definition int_repr :: "int \<Rightarrow> pystr" where
  "int_repr i = (if i < 0 then 0x2D # digits (- i) else digits i)"

definition hex_char :: "int \<Rightarrow> int" where
  "hex_char n = (if n < 10 then 48 + n else 87 + n)"

text \<open>\<open>\uXXXX\<close> with four lower-case hexadecimal digits.\<close>

definition u_escape :: "int \<Rightarrow> pystr" where
  "u_escape n =
     [0x5C, 0x75, hex_char (n div 4096), hex_char (n div 256 mod 16), hex_char (n div 16 mod 16),
      hex_char (n mod 16)]"

text \<open>
  The replacement of one character inside a string (the table \<open>ESCAPE_DCT\<close> and the
  pattern \<open>ESCAPE_ASCII\<close> of the \<open>json\<close> module): the quote and the backslash are
  escaped, the printable ASCII characters stand for themselves, the control characters
  with a short name get it, every other character of the basic plane is written
  \<open>\uXXXX\<close>, and a character beyond it as a surrogate pair.
\<close>

definition escape_char :: "int \<Rightarrow> pystr" where
  "escape_char n =
     (if n = 0x22 then [0x5C, 0x22]
      else if n = 0x5C then [0x5C, 0x5C]
      else if 0x20 \<le> n \<and> n \<le> 0x7E then [n]
      else if n = 0x0A then [0x5C, 0x6E]
      else if n = 0x0D then [0x5C, 0x72]
      else if n = 0x09 then [0x5C, 0x74]
      else if n = 0x08 then [0x5C, 0x62]
      else if n = 0x0C then [0x5C, 0x66]
      else if n < 0x10000 then u_escape n
      else u_escape (0xD800 + (n - 0x10000) div 0x400) @
           u_escape (0xDC00 + (n - 0x10000) mod 0x400))"

definition encode_str :: "pystr \<Rightarrow> pystr" where
  "encode_str s = 0x22 # concat (map escape_char s) @ [0x22]"

fun join :: "pystr \<Rightarrow> pystr list \<Rightarrow> pystr" where
  "join sep [] = []"
| "join sep [x] = x"
| "join sep (x # y # ys) = x @ sep @ join sep (y # ys)"

fun json_dumps :: "(pyfloat \<Rightarrow> pystr) \<Rightarrow> json \<Rightarrow> pystr" where
  "json_dumps fr JNull = str ''null''"
| "json_dumps fr (JBool b) = (if b then str ''true'' else str ''false'')"
| "json_dumps fr (JInt i) = int_repr i"
| "json_dumps fr (JFloat f) = fr f"
| "json_dumps fr (JStr s) = encode_str s"
| "json_dumps fr (JList xs) = str ''['' @ join (str '', '') (map (json_dumps fr) xs) @ str '']''"
| "json_dumps fr (JDict kvs) =
     str ''{'' @
     join (str '', '') (map (\<lambda>kv. encode_str (fst kv) @ str '': '' @ json_dumps fr (snd kv)) kvs) @
     str ''}''"

section \<open>The proxy process as the harness sees it\<close>

text \<open>
  An HTTP response as far as the harness is concerned: its status, and the seconds the
  call that returned it took.
\<close>

record http_response =
  status_code :: nat
  seconds_taken :: nat

text \<open>How the proxy's standard output ends after the text it writes.\<close>

datatype ending =
    Closed
  | Undecodable
  | Silent

text \<open>
  What the surroundings decide in one run of the harness:
  \<^item> whether the harness's own standard output encodes every code point but the
    surrogates, as UTF-8 does; a standard output that does not is taken to fail on the
    emoji of the first \<^verbatim>\<open>print\<close>, and one that does to accept all that is
    written to it;
  \<^item> the outcome of \<^verbatim>\<open>requests.get(url, timeout=t)\<close>: the response it returns,
    the exception it raises, or that it never returns (the timeout bounds each wait for
    the server, not the whole call);
  \<^item> whether \<^verbatim>\<open>subprocess.Popen\<close> raises;
  \<^item> what \<^verbatim>\<open>poll()\<close> returns after the one-second sleep;
  \<^item> the outcome of \<^verbatim>\<open>process.stderr.read()\<close>: the decoded text, a
    \<open>UnicodeDecodeError\<close>, or no return while the pipe stays open;
  \<^item> the text the proxy writes to its standard output, decoded and with line ends
    translated, and how that output ends: the proxy closes it, bytes follow that are not
    UTF-8, or the proxy keeps it open and writes nothing more; bytes that cannot be
    decoded are taken to reach the harness once the text before them has been read;
  \<^item> after how many lines read the proxy closes its standard input (never, for \<open>None\<close>);
  \<^item> whether the proxy has exited five seconds after \<^verbatim>\<open>terminate()\<close>;
  \<^item> the two library functions \<^verbatim>\<open>json.loads\<close> (its value or the exception it
    raises) and \<open>repr\<close> of a float.
\<close>

record env =
  stdout_utf8 :: bool
  requests_get :: "pystr \<Rightarrow> nat \<Rightarrow> stop + http_response"
  popen_error :: "exn option"
  poll_result :: "int option"
  proxy_stderr :: "stop + pystr"
  proxy_stdout :: pystr
  stdout_ending :: ending
  stdin_closed_after :: "nat option"
  exits_in_time :: bool
  json_loads :: "pystr \<Rightarrow> exn + json"
  float_repr :: "pyfloat \<Rightarrow> pystr"

text \<open>The operations performed on the process object, each with what it was given or returned.\<close>

datatype call =
    Poll "int option"
  | StderrRead
  | Write pystr
  | Flush
  | Readline "stop + pystr"
  | Close
  | Terminate
  | Wait nat

text \<open>
  The process object: the text accepted by \<^verbatim>\<open>stdin.write\<close> and still in the
  buffer, the text that has reached the proxy's standard input and in how many pieces,
  the part of the proxy's standard output not read yet, and the operations performed so
  far, in order.
\<close>

record proc =
  pending :: pystr
  delivered :: pystr
  sent :: nat
  unread :: pystr
  calls :: "call list"

definition Popen :: "env \<Rightarrow> proc" where
  "Popen ev = \<lparr>pending = [], delivered = [], sent = 0, unread = proxy_stdout ev, calls = []\<rparr>"

definition poll :: "env \<Rightarrow> proc \<Rightarrow> int option \<times> proc" where
  "poll ev p = (poll_result ev, p\<lparr>calls := calls p @ [Poll (poll_result ev)]\<rparr>)"

definition stderr_read :: "env \<Rightarrow> proc \<Rightarrow> (stop + pystr) \<times> proc" where
  "stderr_read ev p = (proxy_stderr ev, p\<lparr>calls := calls p @ [StderrRead]\<rparr>)"

text \<open>
  The buffer is pushed to the pipe. With nothing buffered nothing is written. Once the
  proxy has closed its standard input the write fails with \<open>BrokenPipeError\<close> and the
  text stays in the buffer.
\<close>

definition pipe_broken :: "env \<Rightarrow> proc \<Rightarrow> bool" where
  "pipe_broken ev p = (case stdin_closed_after ev of None \<Rightarrow> False | Some n \<Rightarrow> n \<le> sent p)"

definition push_pending :: "env \<Rightarrow> proc \<Rightarrow> (stop + unit) \<times> proc" where
  "push_pending ev p =
     (if pending p = [] then (Inr (), p)
      else if pipe_broken ev p then (Inl (Raised BrokenPipeError), p)
      else (Inr (), p\<lparr>delivered := delivered p @ pending p, pending := [], sent := Suc (sent p)\<rparr>))"

text \<open>
  The pipe is opened with \<open>text=True, bufsize=1\<close>, that is line buffered: a write
  whose text holds a line end is pushed to the pipe at once.
\<close>

definition stdin_write :: "env \<Rightarrow> pystr \<Rightarrow> proc \<Rightarrow> (stop + unit) \<times> proc" where
  "stdin_write ev s p =
     (let p' = p\<lparr>pending := pending p @ s, calls := calls p @ [Write s]\<rparr>
      in if newline \<in> set s \<or> 0x0D \<in> set s then push_pending ev p' else (Inr (), p'))"

definition stdin_flush :: "env \<Rightarrow> proc \<Rightarrow> (stop + unit) \<times> proc" where
  "stdin_flush ev p = push_pending ev (p\<lparr>calls := calls p @ [Flush]\<rparr>)"

text \<open>
  \<^verbatim>\<open>readline()\<close> on a text: up to and including the first newline; the rest
  of the text when it has no newline; the empty string at the end of the stream.
\<close>

fun readline :: "pystr \<Rightarrow> pystr \<times> pystr" where
  "readline [] = ([], [])"
| "readline (c # cs) =
     (if c = newline then ([c], cs) else (case readline cs of (l, r) \<Rightarrow> (c # l, r)))"

text \<open>
  \<^verbatim>\<open>process.stdout.readline()\<close>: when the unread text holds no newline, the call
  returns it only if the proxy has closed its output; otherwise it raises
  \<open>UnicodeDecodeError\<close> on the bytes that follow, or waits for ever.
\<close>

definition readline_result :: "env \<Rightarrow> pystr \<Rightarrow> stop + pystr" where
  "readline_result ev s =
     (if newline \<in> set s then Inr (fst (readline s))
      else case stdout_ending ev of
        Closed \<Rightarrow> Inr s
      | Undecodable \<Rightarrow> Inl (Raised UnicodeDecodeError)
      | Silent \<Rightarrow> Inl Blocked)"

definition stdout_readline :: "env \<Rightarrow> proc \<Rightarrow> (stop + pystr) \<times> proc" where
  "stdout_readline ev p =
     (case readline_result ev (unread p) of
        Inr l \<Rightarrow> (Inr l, p\<lparr>unread := snd (readline (unread p)), calls := calls p @ [Readline (Inr l)]\<rparr>)
      | Inl st \<Rightarrow> (Inl st, p\<lparr>calls := calls p @ [Readline (Inl st)]\<rparr>))"

text \<open>\<^verbatim>\<open>process.stdin.close()\<close> flushes what is left in the buffer.\<close>

definition stdin_close :: "env \<Rightarrow> proc \<Rightarrow> (stop + unit) \<times> proc" where
  "stdin_close ev p = push_pending ev (p\<lparr>calls := calls p @ [Close]\<rparr>)"

definition terminate :: "proc \<Rightarrow> (stop + unit) \<times> proc" where
  "terminate p = (Inr (), p\<lparr>calls := calls p @ [Terminate]\<rparr>)"

text \<open>\<^verbatim>\<open>wait(timeout=t)\<close> raises \<open>TimeoutExpired\<close> when the process has not exited in time.\<close>

definition wait :: "env \<Rightarrow> nat \<Rightarrow> proc \<Rightarrow> (stop + unit) \<times> proc" where
  "wait ev t p =
     (if exits_in_time ev then Inr () else Inl (Raised TimeoutExpired),
      p\<lparr>calls := calls p @ [Wait t]\<rparr>)"

section \<open>The harness\<close>

text \<open>
  \<^verbatim>\<open>check_colony_running\<close>: the bare \<^verbatim>\<open>except:\<close> catches whatever
  \<^verbatim>\<open>requests.get\<close> raises, \<open>KeyboardInterrupt\<close> included.
\<close>

definition check_colony_running :: "env \<Rightarrow> stop + bool" where
  "check_colony_running ev =
     (case requests_get ev (str ''http://localhost:9000'') 2 of
        Inr response \<Rightarrow> Inr True
      | Inl (Raised e) \<Rightarrow> Inr False
      | Inl Blocked \<Rightarrow> Inl Blocked)"

text \<open>Sequencing of steps that change the process and may raise or never return.\<close>

definition bind_io ::
  "(stop + 'a) \<times> proc \<Rightarrow> ('a \<Rightarrow> proc \<Rightarrow> (stop + 'b) \<times> proc) \<Rightarrow> (stop + 'b) \<times> proc" where
  "bind_io m f = (case m of (Inl st, p) \<Rightarrow> (Inl st, p) | (Inr v, p) \<Rightarrow> f v p)"

definition lift_exn :: "exn + 'a \<Rightarrow> stop + 'a" where
  "lift_exn m = (case m of Inl e \<Rightarrow> Inl (Raised e) | Inr v \<Rightarrow> Inr v)"

text \<open>
  \<^verbatim>\<open>send_mcp_request\<close>. Its two \<^verbatim>\<open>print\<close> calls write an arrow and the
  output of \<^verbatim>\<open>json.dumps\<close>, which is ASCII. \<^verbatim>\<open>main\<close> calls the function
  only after its first \<^verbatim>\<open>print\<close> has succeeded, on a standard output that
  encodes the arrow, so the two calls do not fail; \<^verbatim>\<open>json.dumps\<close> is taken to
  succeed on what \<^verbatim>\<open>json.loads\<close> has returned.
\<close>

definition send_mcp_request :: "env \<Rightarrow> proc \<Rightarrow> json \<Rightarrow> (stop + json) \<times> proc" where
  "send_mcp_request ev process request =
     (let request_json = json_dumps (float_repr ev) request @ [newline]
      in bind_io (stdin_write ev request_json process) (\<lambda>_ p.
         bind_io (stdin_flush ev p) (\<lambda>_ p.
         bind_io (stdout_readline ev p) (\<lambda>response_line p.
           if response_line = [] then (Inl (Raised (Exception ''No response from proxy'')), p)
           else (lift_exn (json_loads ev response_line), p)))))"

text \<open>The four requests of \<^verbatim>\<open>main\<close>, as the dictionary literals are written.\<close>

definition request_initialize :: json where
  "request_initialize =
     JDict [(str ''jsonrpc'', JStr (str ''2.0'')), (str ''id'', JInt 1),
            (str ''method'', JStr (str ''initialize'')), (str ''params'', JDict [])]"

definition request_tools_list :: json where
  "request_tools_list =
     JDict [(str ''jsonrpc'', JStr (str ''2.0'')), (str ''id'', JInt 2),
            (str ''method'', JStr (str ''tools/list'')), (str ''params'', JDict [])]"

definition request_tools_call :: json where
  "request_tools_call =
     JDict [(str ''jsonrpc'', JStr (str ''2.0'')), (str ''id'', JInt 3),
            (str ''method'', JStr (str ''tools/call'')),
            (str ''params'', JDict [(str ''name'', JStr (str ''coral_get_service_health'')),
                                    (str ''arguments'', JDict [])])]"

definition request_invalid_method :: json where
  "request_invalid_method =
     JDict [(str ''jsonrpc'', JStr (str ''2.0'')), (str ''id'', JInt 4),
            (str ''method'', JStr (str ''list_tools'')), (str ''params'', JDict [])]"

text \<open>
  Lines 72 to 159: the body of the \<^verbatim>\<open>try\<close> statement, which ends with
  \<^verbatim>\<open>return 0\<close>. The \<^verbatim>\<open>print\<close> calls of fixed messages between the
  tests succeed, as the first one of \<^verbatim>\<open>main\<close> has.
\<close>

definition try_body :: "env \<Rightarrow> proc \<Rightarrow> (stop + int) \<times> proc" where
  "try_body ev process =
     bind_io (send_mcp_request ev process request_initialize) (\<lambda>response p.
     bind_io (lift_exn (check_initialize response), p) (\<lambda>_ p.
     bind_io (send_mcp_request ev p request_tools_list) (\<lambda>response p.
     bind_io (lift_exn (check_tools_list response), p) (\<lambda>_ p.
     bind_io (send_mcp_request ev p request_tools_call) (\<lambda>response p.
     bind_io (lift_exn (check_tools_call response), p) (\<lambda>_ p.
     bind_io (send_mcp_request ev p request_invalid_method) (\<lambda>response p.
     bind_io (lift_exn (check_invalid_method response), p) (\<lambda>_ p.
     (Inr 0, p)))))))))"

text \<open>
  Lines 161 to 165: the handler of \<^verbatim>\<open>except Exception as e\<close>. It prints
  \<^verbatim>\<open>str(e)\<close>, which holds a string of the response as it is only for the two
  assertion messages that format \<^verbatim>\<open>response.get('error')\<close>; the traceback goes to
  the standard error stream, which escapes what it cannot encode.
\<close>

definition handler :: "exn \<Rightarrow> stop + int" where
  "handler e =
     (case py_print (case e of AssertionError msg (Some v) \<Rightarrow> [v] | _ \<Rightarrow> []) of
        Inl e' \<Rightarrow> Inl (Raised e')
      | Inr _ \<Rightarrow> Inr 1)"

text \<open>Lines 167 to 172: the \<^verbatim>\<open>finally\<close> block.\<close>

definition cleanup :: "env \<Rightarrow> proc \<Rightarrow> (stop + unit) \<times> proc" where
  "cleanup ev process =
     bind_io (stdin_close ev process) (\<lambda>_ p.
     bind_io (terminate p) (\<lambda>_ p.
     wait ev 5 p))"

text \<open>
  The \<^verbatim>\<open>try\<close> statement of \<^verbatim>\<open>main\<close>: an exception of the body that
  derives from \<open>Exception\<close> goes to the handler, any other one stays pending; the
  \<^verbatim>\<open>finally\<close> block runs in every case, and an exception it raises replaces the
  pending return or exception. A body that never returns leaves everything undone.
\<close>

definition try_statement :: "env \<Rightarrow> proc \<Rightarrow> (stop + int) \<times> proc" where
  "try_statement ev process =
     (case try_body ev process of
        (Inl Blocked, p) \<Rightarrow> (Inl Blocked, p)
      | (outcome, p) \<Rightarrow>
          (let completion =
                 (case outcome of
                    Inr v \<Rightarrow> Inr v
                  | Inl (Raised e) \<Rightarrow> if is_Exception e then handler e else Inl (Raised e)
                  | Inl Blocked \<Rightarrow> Inl Blocked)
           in case cleanup ev p of
                (Inl st, p') \<Rightarrow> (Inl st, p')
              | (Inr _, p') \<Rightarrow> (completion, p')))"

text \<open>
  \<^verbatim>\<open>main\<close>. Its result is the value it returns, the exception it raises or that
  it never returns, with the process object when one was created.
\<close>

definition main :: "env \<Rightarrow> (stop + int) \<times> proc option" where
  "main ev =
     (if \<not> stdout_utf8 ev then (Inl (Raised UnicodeEncodeError), None)
      else case check_colony_running ev of
        Inl st \<Rightarrow> (Inl st, None)
      | Inr False \<Rightarrow> (Inr 1, None)
      | Inr True \<Rightarrow>
          (case popen_error ev of
             Some e \<Rightarrow> (Inl (Raised e), None)
           | None \<Rightarrow>
               (case poll ev (Popen ev) of
                  (Some returncode, process) \<Rightarrow>
                    (case stderr_read ev process of
                       (Inl st, p) \<Rightarrow> (Inl st, Some p)
                     | (Inr stderr, p) \<Rightarrow> (lift_exn (bind_exn (py_print [JStr stderr]) (\<lambda>_. Inr 1)), Some p))
                | (None, process) \<Rightarrow>
                    (case try_statement ev process of (result, p) \<Rightarrow> (result, Some p)))))"

section \<open>Notions used to state the properties of the harness\<close>

text \<open>
  The three operations of one complete \<^verbatim>\<open>send_mcp_request\<close> call, \<open>outcome\<close>
  being how \<^verbatim>\<open>readline()\<close> ended.
\<close>

definition exchange :: "env \<Rightarrow> json \<Rightarrow> stop + pystr \<Rightarrow> call list" where
  "exchange ev request outcome =
     [Write (json_dumps (float_repr ev) request @ [newline]), Flush, Readline outcome]"

text \<open>The operations on the pipes among the operations performed on the process.\<close>

definition pipe_call :: "call \<Rightarrow> bool" where
  "pipe_call c = (case c of Write s \<Rightarrow> True | Flush \<Rightarrow> True | Readline l \<Rightarrow> True | _ \<Rightarrow> False)"

text \<open>The four tests of \<^verbatim>\<open>main\<close>: the request sent and the assertions on its response.\<close>

definition tests :: "(json \<times> (json \<Rightarrow> exn + unit)) list" where
  "tests =
     [(request_initialize, check_initialize), (request_tools_list, check_tools_list),
      (request_tools_call, check_tools_call), (request_invalid_method, check_invalid_method)]"

text \<open>
  A list of tests run one after the other, stopping at the first exception; the body of
  the \<^verbatim>\<open>try\<close> statement is this run on \<open>tests\<close> (lemma \<open>try_body_run_tests\<close>).
\<close>

fun run_tests ::
  "env \<Rightarrow> proc \<Rightarrow> (json \<times> (json \<Rightarrow> exn + unit)) list \<Rightarrow> (stop + unit) \<times> proc" where
  "run_tests ev p [] = (Inr (), p)"
| "run_tests ev p (t # ts) =
     bind_io (send_mcp_request ev p (fst t)) (\<lambda>response p.
     bind_io (lift_exn (snd t response), p) (\<lambda>_ p. run_tests ev p ts))"

text \<open>What \<open>n\<close> successive \<^verbatim>\<open>readline()\<close> calls return on a text that ends with the end of the stream.\<close>

fun read_lines :: "nat \<Rightarrow> pystr \<Rightarrow> pystr list" where
  "read_lines 0 s = []"
| "read_lines (Suc n) s = fst (readline s) # read_lines n (snd (readline s))"

text \<open>The first \<open>n\<close> \<^verbatim>\<open>readline()\<close> calls on the proxy's output all return.\<close>

fun arrive :: "env \<Rightarrow> nat \<Rightarrow> pystr \<Rightarrow> bool" where
  "arrive ev 0 s = True"
| "arrive ev (Suc n) s =
     ((newline \<in> set s \<or> stdout_ending ev = Closed) \<and> arrive ev n (snd (readline s)))"

text \<open>The proxy keeps its standard input open until it has read \<open>n\<close> lines.\<close>

definition reads_requests :: "env \<Rightarrow> nat \<Rightarrow> bool" where
  "reads_requests ev n = (case stdin_closed_after ev of None \<Rightarrow> True | Some k \<Rightarrow> n \<le> k)"

text \<open>
  A test passes on a line read from the proxy: the line is not empty, it parses, and
  the assertions of the test hold for the parsed response.
\<close>

definition passes :: "env \<Rightarrow> json \<times> (json \<Rightarrow> exn + unit) \<Rightarrow> pystr \<Rightarrow> bool" where
  "passes ev t line =
     (line \<noteq> [] \<and>
      (case json_loads ev line of Inl e \<Rightarrow> False | Inr response \<Rightarrow> snd t response = Inr ()))"

text \<open>
  All four tests pass: the proxy reads the four requests, answers each with a line, and
  each test passes on its line.
\<close>

definition all_tests_pass :: "env \<Rightarrow> bool" where
  "all_tests_pass ev \<longleftrightarrow>
     reads_requests ev 4 \<and> arrive ev 4 (proxy_stdout ev) \<and>
     list_all2 (passes ev) tests (read_lines 4 (proxy_stdout ev))"

text \<open>
  The proxy has been started and has passed the start-up check of lines 64 to 69:
  the \<^verbatim>\<open>try\<close> statement is entered.
\<close>

definition started :: "env \<Rightarrow> bool" where
  "started ev \<longleftrightarrow>
     stdout_utf8 ev \<and> check_colony_running ev = Inr True \<and> popen_error ev = None \<and>
     poll_result ev = None"

text \<open>The process object on entry to the \<^verbatim>\<open>try\<close> statement.\<close>

definition started_process :: "env \<Rightarrow> proc" where
  "started_process ev = snd (poll ev (Popen ev))"

text \<open>
  A run in which the colony answers, the proxy starts, keeps its standard input open,
  writes the given responses one per line, closes its output and exits in time. The
  responses hold no float; each line parses to the response it was written from.
\<close>

definition env_of_responses :: "json list \<Rightarrow> env" where
  "env_of_responses rs =
     \<lparr>stdout_utf8 = True,
      requests_get = (\<lambda>url t. Inr \<lparr>status_code = 200, seconds_taken = 0\<rparr>),
      popen_error = None,
      poll_result = None,
      proxy_stderr = Inr [],
      proxy_stdout = concat (map (\<lambda>r. json_dumps (\<lambda>f. []) r @ [newline]) rs),
      stdout_ending = Closed,
      stdin_closed_after = None,
      exits_in_time = True,
      json_loads =
        (\<lambda>line. case find (\<lambda>r. json_dumps (\<lambda>f. []) r @ [newline] = line) rs of
                  None \<Rightarrow> Inl JSONDecodeError
                | Some r \<Rightarrow> Inr r),
      float_repr = (\<lambda>f. [])\<rparr>"

definition response_initialize :: json where
  "response_initialize =
     JDict [(str ''jsonrpc'', JStr (str ''2.0'')), (str ''id'', JInt 1),
            (str ''result'',
               JDict [(str ''protocolVersion'', JStr (str ''2024-11-05'')),
                      (str ''serverInfo'', JDict [(str ''name'', JStr (str ''coral'')),
                                                  (str ''version'', JStr (str ''1.0''))])])]"

definition response_tools_list :: json where
  "response_tools_list =
     JDict [(str ''jsonrpc'', JStr (str ''2.0'')), (str ''id'', JInt 2),
            (str ''result'', JDict [(str ''tools'',
               JList [JDict [(str ''name'', JStr (str ''coral_get_service_health'')),
                             (str ''description'', JStr (str ''health of the services''))]])])]"

definition response_tools_call_error :: json where
  "response_tools_call_error =
     JDict [(str ''jsonrpc'', JStr (str ''2.0'')), (str ''id'', JInt 3),
            (str ''error'', JDict [(str ''code'', JInt (- 32603)),
                                   (str ''message'', JStr (str ''backend unreachable''))])]"

definition response_method_not_found :: json where
  "response_method_not_found =
     JDict [(str ''jsonrpc'', JStr (str ''2.0'')), (str ''id'', JInt 4),
            (str ''error'', JDict [(str ''code'', JInt (- 32601)),
                                   (str ''message'', JStr (str ''method not found: list_tools''))])]"

definition good_responses :: "json list" where
  "good_responses =
     [response_initialize, response_tools_list, response_tools_call_error,
      response_method_not_found]"

section \<open>The proxy, from its specification\<close>

text \<open>
  Modelled from the spec: the proxy itself (\<^verbatim>\<open>coral colony mcp proxy\<close>), which the
  harness starts as a subprocess and whose code is not part of the sources at hand. The
  definitions of this section follow the specification's data model (section 3), session
  state machine (4.3), method dispatcher (4.4) and tool registry (4.5), for requests that
  have passed the envelope codec.
\<close>

datatype session_state = Uninitialized | Initializing | Ready

record session =
  state :: session_state
  negotiatedProtocolVersion :: "string option"

record tool_descriptor =
  tool_name :: string
  tool_description :: string
  inputSchema :: json

record rpc_request =
  req_id :: "json option"
  req_method :: string
  req_params :: json

datatype rpc_response =
    Result "json option" json
  | Error "json option" int string

text \<open>
  What is fixed when the proxy starts: the server's name and version, the tools of the
  catalogue, the application-defined error code of a failed tool call, and the backend
  client (the error message of a failed backend call, or the content blocks of its
  result). The specification has \<open>tools/list\<close> return a non-empty ordered catalogue
  (section 8), so the registry holds a first tool and the tools after it.
\<close>

record proxy =
  server_name :: string
  server_version :: string
  first_tool :: tool_descriptor
  more_tools :: "tool_descriptor list"
  tool_error_code :: int
  backend :: "pystr \<Rightarrow> json \<Rightarrow> string + json list"

definition catalogue :: "proxy \<Rightarrow> tool_descriptor list" where
  "catalogue px = first_tool px # more_tools px"

definition protocol_version :: string where
  "protocol_version = ''2024-11-05''"

definition InvalidRequest :: int where
  "InvalidRequest = - 32600"

definition MethodNotFound :: int where
  "MethodNotFound = - 32601"

definition InvalidParams :: int where
  "InvalidParams = - 32602"

definition initial_session :: session where
  "initial_session = \<lparr>state = Uninitialized, negotiatedProtocolVersion = None\<rparr>"

definition descriptor_json :: "tool_descriptor \<Rightarrow> json" where
  "descriptor_json d =
     JDict [(str ''name'', JStr (str (tool_name d))),
            (str ''description'', JStr (str (tool_description d))),
            (str ''inputSchema'', inputSchema d)]"

definition handle_initialize :: "proxy \<Rightarrow> session \<Rightarrow> rpc_request \<Rightarrow> rpc_response \<times> session" where
  "handle_initialize px s rq =
     (Result (req_id rq)
        (JDict [(str ''protocolVersion'', JStr (str protocol_version)),
                (str ''serverInfo'', JDict [(str ''name'', JStr (str (server_name px))),
                                            (str ''version'', JStr (str (server_version px)))])]),
      s\<lparr>state := Ready, negotiatedProtocolVersion := Some protocol_version\<rparr>)"

definition handle_tools_list :: "proxy \<Rightarrow> rpc_request \<Rightarrow> rpc_response" where
  "handle_tools_list px rq =
     Result (req_id rq) (JDict [(str ''tools'', JList (map descriptor_json (catalogue px)))])"

definition handle_tools_call :: "proxy \<Rightarrow> rpc_request \<Rightarrow> rpc_response" where
  "handle_tools_call px rq =
     (case req_params rq of
        JDict ps \<Rightarrow>
          (case map_of ps (str ''name'') of
             Some (JStr n) \<Rightarrow>
               if n \<in> set (map (\<lambda>d. str (tool_name d)) (catalogue px)) then
                 (case backend px n
                         (case map_of ps (str ''arguments'') of None \<Rightarrow> JDict [] | Some a \<Rightarrow> a) of
                    Inr content \<Rightarrow> Result (req_id rq) (JDict [(str ''content'', JList content)])
                  | Inl msg \<Rightarrow> Error (req_id rq) (tool_error_code px) msg)
               else Error (req_id rq) (tool_error_code px) ''unknown tool''
           | _ \<Rightarrow> Error (req_id rq) InvalidParams ''invalid params'')
      | _ \<Rightarrow> Error (req_id rq) InvalidParams ''invalid params'')"

text \<open>The dispatcher: the method name is matched exactly.\<close>

definition dispatch :: "proxy \<Rightarrow> session \<Rightarrow> rpc_request \<Rightarrow> rpc_response \<times> session" where
  "dispatch px s rq =
     (if req_method rq = ''initialize'' then handle_initialize px s rq
      else if req_method rq = ''tools/list'' then (handle_tools_list px rq, s)
      else if req_method rq = ''tools/call'' then (handle_tools_call px rq, s)
      else (Error (req_id rq) MethodNotFound (''method not found: '' @ req_method rq), s))"

text \<open>The session state machine in front of the dispatcher: only \<open>initialize\<close> passes while the session is not \<open>Ready\<close>.\<close>

definition handle_request :: "proxy \<Rightarrow> session \<Rightarrow> rpc_request \<Rightarrow> rpc_response \<times> session" where
  "handle_request px s rq =
     (if state s \<noteq> Ready \<and> req_method rq \<noteq> ''initialize''
      then (Error (req_id rq) InvalidRequest ''server not initialized'', s)
      else dispatch px s rq)"

text \<open>The dispatch loop: one request is answered before the next one is read.\<close>

fun serve :: "proxy \<Rightarrow> session \<Rightarrow> rpc_request list \<Rightarrow> rpc_response list \<times> session" where
  "serve px s [] = ([], s)"
| "serve px s (rq # rqs) =
     (case handle_request px s rq of
        (rs, s') \<Rightarrow> (case serve px s' rqs of (rss, s'') \<Rightarrow> (rs # rss, s'')))"

text \<open>A proxy with one tool and an unreachable backend, and three requests, for the examples.\<close>

definition example_proxy :: proxy where
  "example_proxy =
     \<lparr>server_name = ''coral'', server_version = ''1.0'',
      first_tool = \<lparr>tool_name = ''coral_get_service_health'',
                     tool_description = ''health of the services'',
                     inputSchema = JDict [(str ''type'', JStr (str ''object''))]\<rparr>,
      more_tools = [],
      tool_error_code = - 32000,
      backend = (\<lambda>name arguments. Inl ''backend unreachable'')\<rparr>"

definition example_initialize :: rpc_request where
  "example_initialize =
     \<lparr>req_id = Some (JInt 1), req_method = ''initialize'', req_params = JDict []\<rparr>"

definition example_tools_list :: rpc_request where
  "example_tools_list =
     \<lparr>req_id = Some (JInt 2), req_method = ''tools/list'', req_params = JDict []\<rparr>"

definition example_tools_call :: rpc_request where
  "example_tools_call =
     \<lparr>req_id = Some (JInt 3), req_method = ''tools/call'',
      req_params = JDict [(str ''name'', JStr (str ''coral_get_service_health'')),
                          (str ''arguments'', JDict [])]\<rparr>"

section \<open>Facts about the operators\<close>

lemma str_eq_iff: "str a = str b \<longleftrightarrow> a = b"
  by (simp add: str_def inj_map_eq_map inj_on_def)

lemma subscript_Inr_iff:
  "subscript v k = Inr x \<longleftrightarrow> (\<exists>kvs. v = JDict kvs \<and> map_of kvs k = Some x)"
  by (auto simp: subscript_def split: json.splits option.splits)

lemma contains_JDict: "contains k (JDict kvs) = Inr (k \<in> fst ` set kvs)"
  by (simp add: contains_def)

lemma py_assert_Inr: "py_assert c m v = Inr u \<longleftrightarrow> c"
  by (simp add: py_assert_def)

lemma bind_exn_Inr:
  "bind_exn m f = Inr y \<longleftrightarrow> (\<exists>x. m = Inr x \<and> f x = Inr y)"
  by (cases m) (simp_all add: bind_exn_def)

lemma map_of_Some_key: "map_of kvs k = Some v \<Longrightarrow> k \<in> fst ` set kvs"
  by (metis map_of_eq_None_iff option.distinct(1))

lemma key_iff: "(\<exists>v. map_of kvs k = Some v) \<longleftrightarrow> k \<in> fst ` set kvs"
  by (metis map_of_eq_None_iff not_Some_eq option.distinct(1))

lemma key_None_iff: "k \<in> fst ` set kvs \<longleftrightarrow> map_of kvs k \<noteq> None"
  by (simp add: map_of_eq_None_iff)

lemma eq_int_iff:
  "eq_int v n \<longleftrightarrow>
     v = JInt n \<or> v = JFloat (Finite (of_int n)) \<or> (v = JBool True \<and> n = 1) \<or>
     (v = JBool False \<and> n = 0)"
  by (auto simp: eq_int_def split: json.splits pyfloat.splits)

lemma eq_int_1: "eq_int i 1 \<longleftrightarrow> i = JInt 1 \<or> i = JFloat (Finite 1) \<or> i = JBool True"
  by (auto simp: eq_int_iff)

lemma eq_int_numeral:
  "eq_int i (numeral n) \<longleftrightarrow>
     i = JInt (numeral n) \<or> i = JFloat (Finite (numeral n)) \<or> (i = JBool True \<and> numeral n = (1::int))"
  by (auto simp: eq_int_iff)

lemma eq_int_neg_numeral:
  "eq_int i (- numeral n) \<longleftrightarrow> i = JInt (- numeral n) \<or> i = JFloat (Finite (- numeral n))"
  by (auto simp: eq_int_iff)


lemma unprintable_iff: "unprintable v \<longleftrightarrow> (\<exists>s. v = JStr s \<and> (\<exists>c \<in> set s. surrogate c))"
  by (cases v) (simp_all add: unprintable_def list_ex_iff)

lemma check_prefix_eq:
  "bind_exn (subscript r (str ''jsonrpc'')) (\<lambda>v.
   bind_exn (py_assert (eq_str v (str ''2.0'')) ''Invalid JSON-RPC version'' None) (\<lambda>_.
   bind_exn (subscript r (str ''id'')) (\<lambda>i.
   bind_exn (py_assert (eq_int i n) ''Invalid response ID'' None) (\<lambda>_. rest)))) =
   (case r of
      JDict kvs \<Rightarrow>
        (case map_of kvs (str ''jsonrpc'') of
           None \<Rightarrow> Inl (KeyError (str ''jsonrpc''))
         | Some v \<Rightarrow>
             if v \<noteq> JStr (str ''2.0'') then Inl (AssertionError ''Invalid JSON-RPC version'' None)
             else (case map_of kvs (str ''id'') of
                None \<Rightarrow> Inl (KeyError (str ''id''))
              | Some i \<Rightarrow>
                  if eq_int i n then rest
                  else Inl (AssertionError ''Invalid response ID'' None)))
    | _ \<Rightarrow> Inl TypeError)"
  by (cases r)
    (simp_all add: subscript_def bind_exn_def py_assert_def eq_str_def split: option.splits)

lemma check_prefix:
  "bind_exn (subscript r (str ''jsonrpc'')) (\<lambda>v.
   bind_exn (py_assert (eq_str v (str ''2.0'')) ''Invalid JSON-RPC version'' None) (\<lambda>_.
   bind_exn (subscript r (str ''id'')) (\<lambda>i.
   bind_exn (py_assert (eq_int i n) ''Invalid response ID'' None) (\<lambda>_. rest)))) = Inr u \<longleftrightarrow>
     (\<exists>kvs i. r = JDict kvs \<and> map_of kvs (str ''jsonrpc'') = Some (JStr (str ''2.0'')) \<and>
             map_of kvs (str ''id'') = Some i \<and> eq_int i n) \<and> rest = Inr u"
  unfolding check_prefix_eq by (cases r) (auto split: option.splits)

section \<open>The assertions, read as conditions on the response\<close>

lemma initialize_suffix_eq:
  "bind_exn (contains (str ''error'') (JDict kvs)) (\<lambda>e.
   bind_exn (py_assert (\<not> e) ''Initialize failed''
               (Some (dict_get (JDict kvs) (str ''error'') JNull))) (\<lambda>_.
   bind_exn (subscript (JDict kvs) (str ''result'')) (\<lambda>res.
   bind_exn (subscript res (str ''protocolVersion'')) (\<lambda>pv.
   bind_exn (py_assert (eq_str pv (str ''2024-11-05'')) ''Wrong protocol version'' None) (\<lambda>_.
   bind_exn (subscript (JDict kvs) (str ''result'')) (\<lambda>res'.
   bind_exn (contains (str ''serverInfo'') res') (\<lambda>s.
   py_assert s ''Missing serverInfo'' None))))))) =
   (case map_of kvs (str ''error'') of
      Some err \<Rightarrow> Inl (AssertionError ''Initialize failed'' (Some err))
    | None \<Rightarrow>
        (case map_of kvs (str ''result'') of
           None \<Rightarrow> Inl (KeyError (str ''result''))
         | Some (JDict members) \<Rightarrow>
             (case map_of members (str ''protocolVersion'') of
                None \<Rightarrow> Inl (KeyError (str ''protocolVersion''))
              | Some pv \<Rightarrow>
                  if pv \<noteq> JStr (str ''2024-11-05'')
                  then Inl (AssertionError ''Wrong protocol version'' None)
                  else if map_of members (str ''serverInfo'') = None
                  then Inl (AssertionError ''Missing serverInfo'' None)
                  else Inr ())
         | Some _ \<Rightarrow> Inl TypeError))"
  by (simp add: contains_def bind_exn_def py_assert_def subscript_def dict_get_def eq_str_def
      key_None_iff split: option.splits json.splits)

lemma check_initialize_eq:
  "check_initialize response =
     (case response of
        JDict kvs \<Rightarrow>
          (case map_of kvs (str ''jsonrpc'') of
             None \<Rightarrow> Inl (KeyError (str ''jsonrpc''))
           | Some v \<Rightarrow>
               if v \<noteq> JStr (str ''2.0'') then Inl (AssertionError ''Invalid JSON-RPC version'' None)
               else (case map_of kvs (str ''id'') of
                  None \<Rightarrow> Inl (KeyError (str ''id''))
                | Some i \<Rightarrow>
                    if \<not> (i = JInt 1 \<or> i = JFloat (Finite 1) \<or> i = JBool True)
                    then Inl (AssertionError ''Invalid response ID'' None)
                    else (case map_of kvs (str ''error'') of
                       Some err \<Rightarrow> Inl (AssertionError ''Initialize failed'' (Some err))
                     | None \<Rightarrow>
                         (case map_of kvs (str ''result'') of
                            None \<Rightarrow> Inl (KeyError (str ''result''))
                          | Some (JDict members) \<Rightarrow>
                              (case map_of members (str ''protocolVersion'') of
                                 None \<Rightarrow> Inl (KeyError (str ''protocolVersion''))
                               | Some pv \<Rightarrow>
                                   if pv \<noteq> JStr (str ''2024-11-05'')
                                   then Inl (AssertionError ''Wrong protocol version'' None)
                                   else if map_of members (str ''serverInfo'') = None
                                   then Inl (AssertionError ''Missing serverInfo'' None)
                                   else Inr ())
                          | Some _ \<Rightarrow> Inl TypeError))))
      | _ \<Rightarrow> Inl TypeError)"
proof (cases response)
  case (JDict kvs)
  show ?thesis
    unfolding check_initialize_def check_prefix_eq
    unfolding JDict json.case initialize_suffix_eq
    by (simp add: eq_int_1 split: option.splits)
qed (simp_all add: check_initialize_def bind_exn_def subscript_def)

lemma check_initialize_iff:
  "check_initialize r = Inr () \<longleftrightarrow>
     (\<exists>kvs i res.
        r = JDict kvs \<and> map_of kvs (str ''jsonrpc'') = Some (JStr (str ''2.0'')) \<and>
        map_of kvs (str ''id'') = Some i \<and> eq_int i 1 \<and>
        str ''error'' \<notin> fst ` set kvs \<and>
        map_of kvs (str ''result'') = Some (JDict res) \<and>
        map_of res (str ''protocolVersion'') = Some (JStr (str ''2024-11-05'')) \<and>
        str ''serverInfo'' \<in> fst ` set res)"
  unfolding check_initialize_eq key_None_iff eq_int_1
  by (cases r) (auto split: option.splits json.splits)

lemma invalid_method_suffix:
  "bind_exn (contains (str ''error'') (JDict kvs)) (\<lambda>e.
   bind_exn (py_assert e m1 None) (\<lambda>_.
   bind_exn (subscript (JDict kvs) (str ''error'')) (\<lambda>err.
   bind_exn (subscript err (str ''code'')) (\<lambda>code.
   py_assert (eq_int code n) m2 None)))) = Inr () \<longleftrightarrow>
   (\<exists>err code. map_of kvs (str ''error'') = Some (JDict err) \<and>
      map_of err (str ''code'') = Some code \<and> eq_int code n)"
  by (auto simp: contains_def bind_exn_def py_assert_def subscript_def key_None_iff
      split: option.splits json.splits)

lemma check_invalid_method_iff:
  "check_invalid_method r = Inr () \<longleftrightarrow>
     (\<exists>kvs i err code.
        r = JDict kvs \<and> map_of kvs (str ''jsonrpc'') = Some (JStr (str ''2.0'')) \<and>
        map_of kvs (str ''id'') = Some i \<and> eq_int i 4 \<and>
        map_of kvs (str ''error'') = Some (JDict err) \<and> map_of err (str ''code'') = Some code \<and>
        eq_int code (- 32601))"
proof (cases r)
  case (JDict kvs)
  show ?thesis
    unfolding check_invalid_method_def check_prefix JDict invalid_method_suffix by blast
qed (simp_all add: check_invalid_method_def bind_exn_def subscript_def)

lemma tools_call_suffix_eq:
  "bind_exn (contains (str ''error'') (JDict kvs)) (\<lambda>e.
     if e then
       bind_exn (subscript (JDict kvs) (str ''error'')) (\<lambda>err.
       bind_exn (subscript err (str ''message'')) (\<lambda>message. py_print [message]))
     else
       bind_exn (subscript (JDict kvs) (str ''result'')) (\<lambda>res.
       bind_exn (contains (str ''content'') res) (\<lambda>c.
       py_assert c ''Missing content in result'' None))) =
   (case map_of kvs (str ''error'') of
      Some (JDict err) \<Rightarrow>
        (case map_of err (str ''message'') of
           None \<Rightarrow> Inl (KeyError (str ''message''))
         | Some message \<Rightarrow> if unprintable message then Inl UnicodeEncodeError else Inr ())
    | Some _ \<Rightarrow> Inl TypeError
    | None \<Rightarrow>
        (case map_of kvs (str ''result'') of
           None \<Rightarrow> Inl (KeyError (str ''result''))
         | Some res \<Rightarrow>
             (case contains (str ''content'') res of
                Inl e \<Rightarrow> Inl e
              | Inr c \<Rightarrow>
                  if c then Inr () else Inl (AssertionError ''Missing content in result'' None))))"
  by (simp add: contains_JDict bind_exn_def py_assert_def subscript_def py_print_def
      key_None_iff split: option.splits json.splits sum.splits)

lemma check_tools_call_eq:
  "check_tools_call response =
     (case response of
        JDict kvs \<Rightarrow>
          (case map_of kvs (str ''jsonrpc'') of
             None \<Rightarrow> Inl (KeyError (str ''jsonrpc''))
           | Some v \<Rightarrow>
               if v \<noteq> JStr (str ''2.0'') then Inl (AssertionError ''Invalid JSON-RPC version'' None)
               else (case map_of kvs (str ''id'') of
                  None \<Rightarrow> Inl (KeyError (str ''id''))
                | Some i \<Rightarrow>
                    if \<not> (i = JInt 3 \<or> i = JFloat (Finite 3))
                    then Inl (AssertionError ''Invalid response ID'' None)
                    else (case map_of kvs (str ''error'') of
                       Some (JDict err) \<Rightarrow>
                         (case map_of err (str ''message'') of
                            None \<Rightarrow> Inl (KeyError (str ''message''))
                          | Some message \<Rightarrow>
                              if unprintable message then Inl UnicodeEncodeError else Inr ())
                     | Some _ \<Rightarrow> Inl TypeError
                     | None \<Rightarrow>
                         (case map_of kvs (str ''result'') of
                            None \<Rightarrow> Inl (KeyError (str ''result''))
                          | Some res \<Rightarrow>
                              (case contains (str ''content'') res of
                                 Inl e \<Rightarrow> Inl e
                               | Inr c \<Rightarrow>
                                   if c then Inr ()
                                   else Inl (AssertionError ''Missing content in result'' None))))))
      | _ \<Rightarrow> Inl TypeError)"
proof (cases response)
  case (JDict kvs)
  have three: "eq_int i 3 \<longleftrightarrow> i = JInt 3 \<or> i = JFloat (Finite 3)" for i
    by (simp add: eq_int_numeral)
  show ?thesis
    unfolding check_tools_call_def check_prefix_eq
    unfolding JDict json.case tools_call_suffix_eq
    by (simp add: three split: option.splits)
qed (simp_all add: check_tools_call_def bind_exn_def subscript_def)

lemma check_tools_call_iff:
  "check_tools_call r = Inr () \<longleftrightarrow>
     (\<exists>kvs i.
        r = JDict kvs \<and> map_of kvs (str ''jsonrpc'') = Some (JStr (str ''2.0'')) \<and>
        map_of kvs (str ''id'') = Some i \<and> (i = JInt 3 \<or> i = JFloat (Finite 3)) \<and>
        ((\<exists>err message. map_of kvs (str ''error'') = Some (JDict err) \<and>
            map_of err (str ''message'') = Some message \<and> \<not> unprintable message) \<or>
         (map_of kvs (str ''error'') = None \<and>
          (\<exists>res. map_of kvs (str ''result'') = Some res \<and>
             contains (str ''content'') res = Inr True))))"
  unfolding check_tools_call_eq
  by (cases r) (auto split: option.splits json.splits sum.splits)

lemma check_tools_list_id:
  assumes "check_tools_list r = Inr ()"
  shows "\<exists>kvs i. r = JDict kvs \<and> map_of kvs (str ''jsonrpc'') = Some (JStr (str ''2.0'')) \<and>
             map_of kvs (str ''id'') = Some i \<and> eq_int i 2"
  using assms [unfolded check_tools_list_def check_prefix] by (rule conjunct1)

section \<open>One exchange\<close>

lemma readline_empty: "fst (readline s) = [] \<longleftrightarrow> s = []"
  by (cases s) (simp_all split: prod.splits)


lemma readline_no_newline: "newline \<notin> set s \<Longrightarrow> readline s = (s, [])"
  by (induction s) auto


lemma readline_line:
  "newline \<notin> set l \<Longrightarrow> readline (l @ newline # rest) = (l @ [newline], rest)"
  by (induction l) auto

lemma readline_result_Inr:
  "readline_result ev s = Inr l \<longleftrightarrow>
     (newline \<in> set s \<or> stdout_ending ev = Closed) \<and> l = fst (readline s)"
  by (cases "stdout_ending ev") (auto simp: readline_result_def readline_no_newline)

lemma pipe_broken_simps [simp]:
  "pipe_broken ev (p\<lparr>pending := a\<rparr>) = pipe_broken ev p"
  "pipe_broken ev (p\<lparr>calls := c\<rparr>) = pipe_broken ev p"
  "pipe_broken ev (p\<lparr>delivered := d\<rparr>) = pipe_broken ev p"
  "pipe_broken ev (p\<lparr>unread := u\<rparr>) = pipe_broken ev p"
  by (simp_all add: pipe_broken_def split: option.splits)

lemma pipe_broken_reads: "\<not> pipe_broken ev p \<longleftrightarrow> reads_requests ev (Suc (sent p))"
  by (auto simp: pipe_broken_def reads_requests_def split: option.splits)

lemma send_mcp_request_broken:
  assumes "pipe_broken ev p"
  shows "send_mcp_request ev p req =
     (Inl (Raised BrokenPipeError),
      p\<lparr>pending := pending p @ json_dumps (float_repr ev) req @ [newline],
        calls := calls p @ [Write (json_dumps (float_repr ev) req @ [newline])]\<rparr>)"
  using assms
  by (simp add: send_mcp_request_def stdin_write_def push_pending_def bind_io_def Let_def)

lemma send_mcp_request_stopped:
  assumes "\<not> pipe_broken ev p" and "readline_result ev (unread p) = Inl st"
  shows "send_mcp_request ev p req =
     (Inl st,
      p\<lparr>pending := [],
        delivered := delivered p @ pending p @ json_dumps (float_repr ev) req @ [newline],
        sent := Suc (sent p),
        calls := calls p @ exchange ev req (Inl st)\<rparr>)"
  using assms
  by (simp add: send_mcp_request_def stdin_write_def stdin_flush_def push_pending_def bind_io_def
      stdout_readline_def exchange_def Let_def)

lemma send_mcp_request_read:
  assumes "\<not> pipe_broken ev p" and "readline_result ev (unread p) = Inr l"
  shows "send_mcp_request ev p req =
     (if l = [] then Inl (Raised (Exception ''No response from proxy''))
      else lift_exn (json_loads ev l),
      p\<lparr>pending := [],
        delivered := delivered p @ pending p @ json_dumps (float_repr ev) req @ [newline],
        sent := Suc (sent p),
        unread := snd (readline (unread p)),
        calls := calls p @ exchange ev req (Inr l)\<rparr>)"
  using assms
  by (simp add: send_mcp_request_def stdin_write_def stdin_flush_def push_pending_def bind_io_def
      stdout_readline_def exchange_def Let_def)

section \<open>The sequence of tests\<close>

lemma try_body_run_tests:
  "try_body ev p = bind_io (run_tests ev p tests) (\<lambda>_ p. (Inr 0, p))"
  by (simp add: try_body_def tests_def bind_io_def split: prod.splits sum.splits)

lemma passes_response:
  "passes ev t line \<longleftrightarrow> line \<noteq> [] \<and> (\<exists>r. json_loads ev line = Inr r \<and> snd t r = Inr ())"
  by (cases "json_loads ev line") (simp_all add: passes_def)

lemma run_tests_pass:
  assumes "\<not> pipe_broken ev p" and "readline_result ev (unread p) = Inr l" and "passes ev t l"
  shows "run_tests ev p (t # ts) = run_tests ev (snd (send_mcp_request ev p (fst t))) ts"
proof -
  from assms(3) obtain r where "l \<noteq> []" "json_loads ev l = Inr r" "snd t r = Inr ()"
    unfolding passes_response by blast
  then show ?thesis
    by (simp add: send_mcp_request_read [OF assms(1,2)] bind_io_def lift_exn_def)
qed

lemma run_tests_fail:
  assumes "\<not> (\<not> pipe_broken ev p \<and> (\<exists>l. readline_result ev (unread p) = Inr l \<and> passes ev t l))"
  shows "\<exists>st. run_tests ev p (t # ts) = (Inl st, snd (send_mcp_request ev p (fst t)))"
proof (cases "pipe_broken ev p")
  case True
  then show ?thesis
    by (simp add: send_mcp_request_broken bind_io_def)
next
  case False
  show ?thesis
  proof (cases "readline_result ev (unread p)")
    case (Inl st)
    then show ?thesis
      by (simp add: send_mcp_request_stopped [OF False Inl] bind_io_def)
  next
    case (Inr l)
    with assms False have np: "\<not> passes ev t l"
      by simp
    show ?thesis
    proof (cases "l = []")
      case True
      then show ?thesis
        by (simp add: send_mcp_request_read [OF False Inr] bind_io_def)
    next
      case ne: False
      show ?thesis
      proof (cases "json_loads ev l")
        case (Inl e)
        with ne show ?thesis
          by (simp add: send_mcp_request_read [OF False Inr] bind_io_def lift_exn_def)
      next
        case r: (Inr r)
        with np ne have "snd t r \<noteq> Inr ()"
          by (simp add: passes_response)
        then obtain e where "snd t r = Inl e"
          by (cases "snd t r") simp_all
        with ne r show ?thesis
          by (simp add: send_mcp_request_read [OF False Inr] bind_io_def lift_exn_def)
      qed
    qed
  qed
qed

lemma sent_send:
  "\<not> pipe_broken ev p \<Longrightarrow> sent (snd (send_mcp_request ev p req)) = Suc (sent p)"
  by (cases "readline_result ev (unread p)")
    (simp_all add: send_mcp_request_stopped send_mcp_request_read)

lemma unread_send:
  "\<not> pipe_broken ev p \<Longrightarrow> readline_result ev (unread p) = Inr l \<Longrightarrow>
     unread (snd (send_mcp_request ev p req)) = snd (readline (unread p))"
  by (simp add: send_mcp_request_read)

lemma reads_requests_mono: "reads_requests ev n \<Longrightarrow> m \<le> n \<Longrightarrow> reads_requests ev m"
  by (auto simp: reads_requests_def split: option.splits)

lemma run_tests_result:
  "(\<exists>p'. run_tests ev p ts = (Inr (), p')) \<longleftrightarrow>
     (ts = [] \<or> reads_requests ev (sent p + length ts)) \<and>
     arrive ev (length ts) (unread p) \<and>
     list_all2 (passes ev) ts (read_lines (length ts) (unread p))"
proof (induction ts arbitrary: p)
  case Nil
  then show ?case by simp
next
  case (Cons t ts)
  let ?l = "fst (readline (unread p))"
  let ?ok = "\<not> pipe_broken ev p \<and> (\<exists>l. readline_result ev (unread p) = Inr l \<and> passes ev t l)"
  show ?case
  proof (cases ?ok)
    case True
    then have nb: "\<not> pipe_broken ev p" and rl: "readline_result ev (unread p) = Inr ?l"
      and ps: "passes ev t ?l"
      by (auto simp: readline_result_Inr)
    from rl have ar: "newline \<in> set (unread p) \<or> stdout_ending ev = Closed"
      by (simp add: readline_result_Inr)
    from nb have r1: "reads_requests ev (Suc (sent p))"
      by (simp add: pipe_broken_reads)
    have "reads_requests ev (Suc (sent p + length ts)) \<longleftrightarrow>
        (ts = [] \<or> reads_requests ev (Suc (sent p) + length ts))"
      using r1 by auto
    then show ?thesis
      using ps ar
      by (simp add: run_tests_pass [OF nb rl ps] Cons.IH sent_send [OF nb] unread_send [OF nb rl]
          del: run_tests.simps)
  next
    case False
    from run_tests_fail [OF False, of ts] have lhs: "\<not> (\<exists>p'. run_tests ev p (t # ts) = (Inr (), p'))"
      by (auto simp del: run_tests.simps)
    have "\<not> (reads_requests ev (sent p + length (t # ts)) \<and>
        arrive ev (length (t # ts)) (unread p) \<and>
        list_all2 (passes ev) (t # ts) (read_lines (length (t # ts)) (unread p)))"
    proof
      assume a: "reads_requests ev (sent p + length (t # ts)) \<and>
        arrive ev (length (t # ts)) (unread p) \<and>
        list_all2 (passes ev) (t # ts) (read_lines (length (t # ts)) (unread p))"
      then have "reads_requests ev (Suc (sent p))"
        by (auto elim: reads_requests_mono)
      then have "\<not> pipe_broken ev p"
        by (simp add: pipe_broken_reads)
      moreover from a have "readline_result ev (unread p) = Inr ?l" "passes ev t ?l"
        by (simp_all add: readline_result_Inr)
      ultimately show False
        using False by blast
    qed
    with lhs show ?thesis
      by simp
  qed
qed

lemma calls_send_read:
  "\<not> pipe_broken ev p \<Longrightarrow> readline_result ev (unread p) = Inr l \<Longrightarrow>
     calls (snd (send_mcp_request ev p req)) = calls p @ exchange ev req (Inr l)"
  by (simp add: send_mcp_request_read)

lemma run_tests_calls:
  "\<exists>k rest. k \<le> length ts \<and>
     calls (snd (run_tests ev p ts)) =
       calls p @ concat (map2 (exchange ev) (map fst ts) (map Inr (read_lines k (unread p)))) @ rest \<and>
     (rest = [] \<or>
      k < length ts \<and>
      (rest = [Write (json_dumps (float_repr ev) (fst (ts ! k)) @ [newline])] \<or>
       (\<exists>st. rest = exchange ev (fst (ts ! k)) (Inl st)))) \<and>
     (fst (run_tests ev p ts) = Inr () \<longrightarrow> k = length ts \<and> rest = [])"
proof (induction ts arbitrary: p)
  case Nil
  then show ?case by simp
next
  case (Cons t ts)
  let ?line = "json_dumps (float_repr ev) (fst t) @ [newline]"
  let ?ok = "\<not> pipe_broken ev p \<and> (\<exists>l. readline_result ev (unread p) = Inr l \<and> passes ev t l)"
  show ?case
  proof (cases ?ok)
    case True
    then obtain l where nb: "\<not> pipe_broken ev p" and rl: "readline_result ev (unread p) = Inr l"
      and ps: "passes ev t l"
      by blast
    let ?p1 = "snd (send_mcp_request ev p (fst t))"
    have l: "l = fst (readline (unread p))"
      using rl by (simp add: readline_result_Inr)
    from Cons.IH [of ?p1] obtain k rest where
      k: "k \<le> length ts"
      and c: "calls (snd (run_tests ev ?p1 ts)) =
        calls ?p1 @ concat (map2 (exchange ev) (map fst ts) (map Inr (read_lines k (unread ?p1)))) @ rest"
      and r: "rest = [] \<or> k < length ts \<and>
        (rest = [Write (json_dumps (float_repr ev) (fst (ts ! k)) @ [newline])] \<or>
         (\<exists>st. rest = exchange ev (fst (ts ! k)) (Inl st)))"
      and f: "fst (run_tests ev ?p1 ts) = Inr () \<longrightarrow> k = length ts \<and> rest = []"
      by blast
    show ?thesis
      using k c r f l
      by (intro exI [of _ "Suc k"] exI [of _ rest])
        (simp add: run_tests_pass [OF nb rl ps] calls_send_read [OF nb rl] unread_send [OF nb rl]
          del: run_tests.simps)
  next
    case False
    from run_tests_fail [OF False, of ts] obtain st where
      rt: "run_tests ev p (t # ts) = (Inl st, snd (send_mcp_request ev p (fst t)))"
      by blast
    show ?thesis
    proof (cases "pipe_broken ev p")
      case True
      show ?thesis
        unfolding rt
        by (intro exI [of _ 0] exI [of _ "[Write ?line]"])
          (simp add: send_mcp_request_broken [OF True])
    next
      case nb: False
      show ?thesis
      proof (cases "readline_result ev (unread p)")
        case (Inl st')
        show ?thesis
          unfolding rt
          by (intro exI [of _ 0] exI [of _ "exchange ev (fst t) (Inl st')"])
            (auto simp: send_mcp_request_stopped [OF nb Inl])
      next
        case (Inr l)
        then have l: "l = fst (readline (unread p))"
          by (simp add: readline_result_Inr)
        show ?thesis
          unfolding rt
          by (intro exI [of _ "Suc 0"] exI [of _ "[]"])
            (simp add: calls_send_read [OF nb Inr] l)
      qed
    qed
  qed
qed

lemma run_tests_first_write:
  "\<exists>more. calls (snd (run_tests ev p (t # ts))) =
     calls p @ Write (json_dumps (float_repr ev) (fst t) @ [newline]) # more"
proof -
  let ?ok = "\<not> pipe_broken ev p \<and> (\<exists>l. readline_result ev (unread p) = Inr l \<and> passes ev t l)"
  have send: "\<exists>more. calls (snd (send_mcp_request ev p (fst t))) =
      calls p @ Write (json_dumps (float_repr ev) (fst t) @ [newline]) # more"
  proof (cases "pipe_broken ev p")
    case True
    then show ?thesis by (simp add: send_mcp_request_broken)
  next
    case False
    then show ?thesis
      by (cases "readline_result ev (unread p)")
        (simp_all add: send_mcp_request_stopped send_mcp_request_read exchange_def)
  qed
  show ?thesis
  proof (cases ?ok)
    case False
    from run_tests_fail [OF False, of ts] send show ?thesis
      by (auto simp del: run_tests.simps)
  next
    case True
    then obtain l where nb: "\<not> pipe_broken ev p" and rl: "readline_result ev (unread p) = Inr l"
      and ps: "passes ev t l"
      by blast
    let ?p1 = "snd (send_mcp_request ev p (fst t))"
    from run_tests_calls [of ts ev ?p1] obtain more where
      "calls (snd (run_tests ev ?p1 ts)) = calls ?p1 @ more"
      by auto
    with send show ?thesis
      by (auto simp: run_tests_pass [OF nb rl ps] simp del: run_tests.simps)
  qed
qed

lemma run_tests_pending:
  assumes "pending p = []" and "\<not> (\<exists>before s. calls p = before @ [Write s])"
  shows "(pending (snd (run_tests ev p ts)) \<noteq> [] \<longleftrightarrow>
            (\<exists>before s. calls (snd (run_tests ev p ts)) = before @ [Write s])) \<and>
         (pending (snd (run_tests ev p ts)) \<noteq> [] \<longrightarrow>
            pipe_broken ev (snd (run_tests ev p ts)) \<and>
            fst (run_tests ev p ts) = Inl (Raised BrokenPipeError))"
  using assms
proof (induction ts arbitrary: p)
  case Nil
  then show ?case by simp
next
  case (Cons t ts)
  let ?ok = "\<not> pipe_broken ev p \<and> (\<exists>l. readline_result ev (unread p) = Inr l \<and> passes ev t l)"
  show ?case
  proof (cases ?ok)
    case True
    then obtain l where nb: "\<not> pipe_broken ev p" and rl: "readline_result ev (unread p) = Inr l"
      and ps: "passes ev t l"
      by blast
    let ?p1 = "snd (send_mcp_request ev p (fst t))"
    have "pending ?p1 = []" "\<not> (\<exists>before s. calls ?p1 = before @ [Write s])"
      by (simp_all add: send_mcp_request_read [OF nb rl] exchange_def)
    from Cons.IH [OF this] show ?thesis
      by (simp add: run_tests_pass [OF nb rl ps] del: run_tests.simps)
  next
    case False
    from run_tests_fail [OF False, of ts] obtain st where
      rt: "run_tests ev p (t # ts) = (Inl st, snd (send_mcp_request ev p (fst t)))"
      by blast
    show ?thesis
    proof (cases "pipe_broken ev p")
      case True
      have "run_tests ev p (t # ts) =
          (Inl (Raised BrokenPipeError), snd (send_mcp_request ev p (fst t)))"
        by (simp add: send_mcp_request_broken [OF True] bind_io_def)
      then show ?thesis
        using True by (simp add: send_mcp_request_broken [OF True] del: run_tests.simps)
    next
      case nb: False
      show ?thesis
        unfolding rt
        by (cases "readline_result ev (unread p)")
          (simp_all add: send_mcp_request_stopped [OF nb] send_mcp_request_read [OF nb]
            exchange_def)
    qed
  qed
qed

section \<open>The runs of main\<close>

lemma length_tests: "length tests = 4"
  by (simp add: tests_def)

lemma started_process_simps:
  "pending (started_process ev) = []" "sent (started_process ev) = 0"
  "unread (started_process ev) = proxy_stdout ev" "delivered (started_process ev) = []"
  "calls (started_process ev) = [Poll (poll_result ev)]"
  by (simp_all add: started_process_def poll_def Popen_def)

lemma cleanup_ok:
  "pending p = [] \<Longrightarrow>
     cleanup ev p =
       (if exits_in_time ev then Inr () else Inl (Raised TimeoutExpired),
        p\<lparr>calls := calls p @ [Close, Terminate, Wait 5]\<rparr>)"
  by (simp add: cleanup_def stdin_close_def push_pending_def terminate_def wait_def bind_io_def)

lemma cleanup_broken:
  "pending p \<noteq> [] \<Longrightarrow> pipe_broken ev p \<Longrightarrow>
     cleanup ev p = (Inl (Raised BrokenPipeError), p\<lparr>calls := calls p @ [Close]\<rparr>)"
  by (simp add: cleanup_def stdin_close_def push_pending_def bind_io_def)

lemma handler_eq:
  "handler e =
     (if \<exists>msg v. e = AssertionError msg (Some v) \<and> unprintable v
      then Inl (Raised UnicodeEncodeError) else Inr 1)"
  by (cases e) (auto simp: handler_def py_print_def split: option.splits)

lemma main_started_eq:
  "started ev \<Longrightarrow>
     main ev = (fst (try_statement ev (started_process ev)),
                Some (snd (try_statement ev (started_process ev))))"
  by (simp add: started_def main_def started_process_def poll_def split: prod.splits)

lemma try_body_eq:
  "try_body ev p =
     (case fst (run_tests ev p tests) of Inl st \<Rightarrow> Inl st | Inr u \<Rightarrow> Inr 0,
      snd (run_tests ev p tests))"
  by (cases "run_tests ev p tests")
    (simp add: try_body_run_tests bind_io_def split: sum.splits)

lemma body_passes: "fst (try_body ev (started_process ev)) = Inr 0 \<longleftrightarrow> all_tests_pass ev"
proof -
  have "fst (try_body ev (started_process ev)) = Inr 0 \<longleftrightarrow>
      (\<exists>p'. run_tests ev (started_process ev) tests = (Inr (), p'))"
    by (cases "run_tests ev (started_process ev) tests")
      (auto simp: try_body_eq split: sum.splits)
  also have "\<dots> \<longleftrightarrow> all_tests_pass ev"
  proof -
    have "tests \<noteq> []"
      by (simp add: tests_def)
    then show ?thesis
      unfolding run_tests_result
      by (simp add: all_tests_pass_def length_tests started_process_simps)
  qed
  finally show ?thesis .
qed

lemma body_value: "fst (try_body ev p) = Inr v \<Longrightarrow> v = 0"
  by (auto simp: try_body_eq split: sum.splits)

lemma body_pending:
  "(pending (snd (try_body ev (started_process ev))) \<noteq> [] \<longleftrightarrow>
      (\<exists>before s. calls (snd (try_body ev (started_process ev))) = before @ [Write s])) \<and>
   (pending (snd (try_body ev (started_process ev))) \<noteq> [] \<longrightarrow>
      pipe_broken ev (snd (try_body ev (started_process ev))) \<and>
      fst (try_body ev (started_process ev)) = Inl (Raised BrokenPipeError))"
proof -
  have "pending (started_process ev) = []"
    "\<not> (\<exists>before s. calls (started_process ev) = before @ [Write s])"
    by (simp_all add: started_process_simps)
  from run_tests_pending [OF this, of ev tests] show ?thesis
    by (simp add: try_body_eq)
qed

lemma main_started:
  assumes "started ev"
  shows "main ev =
     (if fst (try_body ev (started_process ev)) = Inl Blocked
      then (Inl Blocked, Some (snd (try_body ev (started_process ev))))
      else if pending (snd (try_body ev (started_process ev))) \<noteq> []
      then (Inl (Raised BrokenPipeError),
            Some ((snd (try_body ev (started_process ev)))
                    \<lparr>calls := calls (snd (try_body ev (started_process ev))) @ [Close]\<rparr>))
      else (if \<not> exits_in_time ev then Inl (Raised TimeoutExpired)
            else case fst (try_body ev (started_process ev)) of
                   Inr v \<Rightarrow> Inr 0
                 | Inl (Raised e) \<Rightarrow> if is_Exception e then handler e else Inl (Raised e)
                 | Inl Blocked \<Rightarrow> Inl Blocked,
            Some ((snd (try_body ev (started_process ev)))
                    \<lparr>calls := calls (snd (try_body ev (started_process ev))) @
                               [Close, Terminate, Wait 5]\<rparr>)))"
proof -
  obtain res p where b: "try_body ev (started_process ev) = (res, p)"
    by (cases "try_body ev (started_process ev)")
  note bp = body_pending [of ev, unfolded b fst_conv snd_conv]
  show ?thesis
  proof (cases "res = Inl Blocked")
    case True
    then show ?thesis
      by (simp add: main_started_eq [OF assms] try_statement_def b)
  next
    case nb: False
    show ?thesis
    proof (cases "pending p = []")
      case True
      with nb body_value [of ev "started_process ev"] show ?thesis
        by (cases res)
          (auto simp: main_started_eq [OF assms] try_statement_def b cleanup_ok Let_def
            split: stop.splits)
    next
      case False
      with bp have "pipe_broken ev p"
        by simp
      with False nb show ?thesis
        by (cases res)
          (auto simp: main_started_eq [OF assms] try_statement_def b cleanup_broken Let_def
            split: stop.splits)
    qed
  qed
qed

lemma main_not_started:
  assumes "\<not> started ev"
  shows "main ev =
     (if \<not> stdout_utf8 ev then (Inl (Raised UnicodeEncodeError), None)
      else case check_colony_running ev of
        Inl st \<Rightarrow> (Inl st, None)
      | Inr False \<Rightarrow> (Inr 1, None)
      | Inr True \<Rightarrow>
          (case popen_error ev of
             Some e \<Rightarrow> (Inl (Raised e), None)
           | None \<Rightarrow>
               (case proxy_stderr ev of
                  Inl st \<Rightarrow> Inl st
                | Inr text \<Rightarrow>
                    if list_ex surrogate text then Inl (Raised UnicodeEncodeError) else Inr 1,
                Some ((Popen ev)\<lparr>calls := [Poll (poll_result ev), StderrRead]\<rparr>))))"
  using assms
  by (auto simp: started_def main_def poll_def stderr_read_def Popen_def py_print_def
      unprintable_def lift_exn_def bind_exn_def split: sum.splits option.splits bool.splits)

lemma main_returns_0_iff:
  "fst (main ev) = Inr 0 \<longleftrightarrow> started ev \<and> all_tests_pass ev \<and> exits_in_time ev"
proof (cases "started ev")
  case False
  then show ?thesis
    by (auto simp: main_not_started split: sum.splits option.splits bool.splits)
next
  case True
  note bp = body_pending [of ev]
  show ?thesis
  proof (cases "all_tests_pass ev")
    case pass: True
    then have b: "fst (try_body ev (started_process ev)) = Inr 0"
      by (simp add: body_passes)
    with bp have "pending (snd (try_body ev (started_process ev))) = []"
      by auto
    with b True pass show ?thesis
      by (simp add: main_started)
  next
    case False
    then have "fst (try_body ev (started_process ev)) \<noteq> Inr 0"
      by (simp add: body_passes)
    moreover have "\<And>v. fst (try_body ev (started_process ev)) = Inr v \<Longrightarrow> v = 0"
      by (rule body_value)
    ultimately obtain st where "fst (try_body ev (started_process ev)) = Inl st"
      by (cases "fst (try_body ev (started_process ev))") auto
    with True False show ?thesis
      by (auto simp: main_started handler_eq split: stop.splits)
  qed
qed

lemma all_tests_pass_iff:
  "all_tests_pass ev \<longleftrightarrow>
     reads_requests ev 4 \<and> arrive ev 4 (proxy_stdout ev) \<and>
     passes ev (request_initialize, check_initialize) (read_lines 4 (proxy_stdout ev) ! 0) \<and>
     passes ev (request_tools_list, check_tools_list) (read_lines 4 (proxy_stdout ev) ! 1) \<and>
     passes ev (request_tools_call, check_tools_call) (read_lines 4 (proxy_stdout ev) ! 2) \<and>
     passes ev (request_invalid_method, check_invalid_method) (read_lines 4 (proxy_stdout ev) ! 3)"
  by (simp add: all_tests_pass_def tests_def eval_nat_numeral)

lemma read_lines_4:
  "read_lines 4 s =
     [fst (readline s),
      fst (readline (snd (readline s))),
      fst (readline (snd (readline (snd (readline s))))),
      fst (readline (snd (readline (snd (readline (snd (readline s)))))))]"
  by (simp add: eval_nat_numeral)

lemma main_0_passes:
  assumes "fst (main ev) = Inr 0"
  shows "passes ev (request_initialize, check_initialize) (fst (readline (proxy_stdout ev)))"
    and "passes ev (request_tools_list, check_tools_list) (read_lines 4 (proxy_stdout ev) ! 1)"
    and "passes ev (request_tools_call, check_tools_call) (read_lines 4 (proxy_stdout ev) ! 2)"
    and "passes ev (request_invalid_method, check_invalid_method) (read_lines 4 (proxy_stdout ev) ! 3)"
  using assms unfolding main_returns_0_iff all_tests_pass_iff
  by (simp_all add: read_lines_4)

lemma env_of_responses_started: "started (env_of_responses rs)"
  by (simp add: started_def env_of_responses_def check_colony_running_def)

lemma main_env_of_responses:
  assumes nl: "newline \<notin> set (json_dumps (\<lambda>f. []) r1)" "newline \<notin> set (json_dumps (\<lambda>f. []) r2)"
      "newline \<notin> set (json_dumps (\<lambda>f. []) r3)" "newline \<notin> set (json_dumps (\<lambda>f. []) r4)"
    and d: "distinct (map (json_dumps (\<lambda>f. [])) [r1, r2, r3, r4])"
    and c: "check_initialize r1 = Inr ()" "check_tools_list r2 = Inr ()"
      "check_tools_call r3 = Inr ()" "check_invalid_method r4 = Inr ()"
  shows "fst (main (env_of_responses [r1, r2, r3, r4])) = Inr 0"
    and "read_lines 4 (proxy_stdout (env_of_responses [r1, r2, r3, r4])) =
      [json_dumps (\<lambda>f. []) r1 @ [newline], json_dumps (\<lambda>f. []) r2 @ [newline],
       json_dumps (\<lambda>f. []) r3 @ [newline], json_dumps (\<lambda>f. []) r4 @ [newline]]"
proof -
  let ?ev = "env_of_responses [r1, r2, r3, r4]"
  let ?d = "json_dumps (\<lambda>f. [])"
  have out: "proxy_stdout ?ev =
      ?d r1 @ newline # ?d r2 @ newline # ?d r3 @ newline # ?d r4 @ newline # []"
    by (simp add: env_of_responses_def)
  show lines: "read_lines 4 (proxy_stdout ?ev) =
      [?d r1 @ [newline], ?d r2 @ [newline], ?d r3 @ [newline], ?d r4 @ [newline]]"
    unfolding out read_lines_4 using nl by (simp add: readline_line)
  have loads: "json_loads ?ev (?d r1 @ [newline]) = Inr r1"
    "json_loads ?ev (?d r2 @ [newline]) = Inr r2"
    "json_loads ?ev (?d r3 @ [newline]) = Inr r3"
    "json_loads ?ev (?d r4 @ [newline]) = Inr r4"
    using d by (auto simp: env_of_responses_def)
  have "arrive ?ev 4 (proxy_stdout ?ev)"
    by (simp add: eval_nat_numeral env_of_responses_def)
  moreover have "reads_requests ?ev 4"
    by (simp add: reads_requests_def env_of_responses_def)
  ultimately have "all_tests_pass ?ev"
    unfolding all_tests_pass_iff lines using c loads by (simp add: passes_response)
  moreover have "exits_in_time ?ev"
    by (simp add: env_of_responses_def)
  ultimately show "fst (main ?ev) = Inr 0"
    unfolding main_returns_0_iff by (simp add: env_of_responses_started)
qed

section \<open>A run against a proxy that answers as specified\<close>

lemma good_responses_newline:
  "newline \<notin> set (json_dumps (\<lambda>f. []) response_initialize)"
  "newline \<notin> set (json_dumps (\<lambda>f. []) response_tools_list)"
  "newline \<notin> set (json_dumps (\<lambda>f. []) response_tools_call_error)"
  "newline \<notin> set (json_dumps (\<lambda>f. []) response_method_not_found)"
  by code_simp+

lemma good_responses_distinct:
  "distinct (map (json_dumps (\<lambda>f. []))
     [response_initialize, response_tools_list, response_tools_call_error,
      response_method_not_found])"
  by code_simp

lemma good_responses_pass:
  "check_initialize response_initialize = Inr ()"
  "check_tools_list response_tools_list = Inr ()"
  "check_tools_call response_tools_call_error = Inr ()"
  "check_invalid_method response_method_not_found = Inr ()"
  by code_simp+

lemma good_run: "fst (main (env_of_responses good_responses)) = Inr 0"
  unfolding good_responses_def
  by (rule main_env_of_responses(1) [OF good_responses_newline good_responses_distinct
        good_responses_pass])

lemma good_lines:
  "read_lines 4 (proxy_stdout (env_of_responses good_responses)) =
     [json_dumps (\<lambda>f. []) response_initialize @ [newline],
      json_dumps (\<lambda>f. []) response_tools_list @ [newline],
      json_dumps (\<lambda>f. []) response_tools_call_error @ [newline],
      json_dumps (\<lambda>f. []) response_method_not_found @ [newline]]"
  unfolding good_responses_def
  by (rule main_env_of_responses(2) [OF good_responses_newline good_responses_distinct
        good_responses_pass])

section \<open>The colony check\<close>

text \<open>
  C9 (as amended). \<^verbatim>\<open>check_colony_running\<close> lets no exception escape. It returns
  \<open>True\<close> exactly when \<^verbatim>\<open>requests.get\<close> on \<open>http://localhost:9000\<close> with
  \<open>timeout=2\<close> returns a response, whatever its status and however long the call took;
  it returns \<open>False\<close> exactly when the call raises, whatever it raises; and it does not
  return exactly when the call does not return.
\<close>

theorem check_colony_running_outcome:
  "(\<forall>e. check_colony_running ev \<noteq> Inl (Raised e)) \<and>
   (check_colony_running ev = Inr True \<longleftrightarrow>
      (\<exists>response. requests_get ev (str ''http://localhost:9000'') 2 = Inr response)) \<and>
   (check_colony_running ev = Inr False \<longleftrightarrow>
      (\<exists>e. requests_get ev (str ''http://localhost:9000'') 2 = Inl (Raised e))) \<and>
   (check_colony_running ev = Inl Blocked \<longleftrightarrow>
      requests_get ev (str ''http://localhost:9000'') 2 = Inl Blocked)"
proof (cases "requests_get ev (str ''http://localhost:9000'') 2")
  case (Inl st)
  then show ?thesis
    by (cases st) (simp_all add: check_colony_running_def)
next
  case (Inr response)
  then show ?thesis
    by (simp add: check_colony_running_def)
qed

theorem check_colony_running_outcome_witness:
  "check_colony_running (env_of_responses []) = Inr True \<and>
   check_colony_running
     ((env_of_responses [])\<lparr>requests_get := (\<lambda>url t. Inl (Raised KeyboardInterrupt))\<rparr>) = Inr False"
  using check_colony_running_outcome [of "env_of_responses []"]
    check_colony_running_outcome
      [of "(env_of_responses [])\<lparr>requests_get := (\<lambda>url t. Inl (Raised KeyboardInterrupt))\<rparr>"]
  by (simp add: env_of_responses_def)

text \<open>
  The function is not total: when the server keeps the request from ever completing,
  each wait staying under two seconds, \<^verbatim>\<open>requests.get\<close> does not return and
  neither does \<^verbatim>\<open>check_colony_running\<close>. And the two seconds do not bound the calls
  that give \<open>True\<close>: a response that took six seconds, with status 503, gives \<open>True\<close>.
\<close>

theorem check_colony_running_counterexample:
  "check_colony_running ((env_of_responses [])\<lparr>requests_get := (\<lambda>url t. Inl Blocked)\<rparr>) =
     Inl Blocked \<and>
   check_colony_running
     ((env_of_responses [])
        \<lparr>requests_get := (\<lambda>url t. Inr \<lparr>status_code = 503, seconds_taken = 6\<rparr>)\<rparr>) = Inr True"
  by (simp add: check_colony_running_def env_of_responses_def)

section \<open>What the four tests require of the responses\<close>

text \<open>
  C1 (as amended). The assertions on the response to \<open>initialize\<close> hold exactly when the
  response is an object whose \<open>jsonrpc\<close> is the string \<open>2.0\<close>, whose \<open>id\<close> compares
  equal to \<open>1\<close> (the integer 1, the float 1.0 or \<open>true\<close>), which has no \<open>error\<close> member,
  and whose \<open>result\<close> is an object with \<open>protocolVersion\<close> equal to \<open>2024-11-05\<close> and
  a \<open>serverInfo\<close> member. For every other response the first check that fails decides
  the exception: a \<open>TypeError\<close> when the response, or its \<open>result\<close>, is not an object; a
  \<open>KeyError\<close> naming the member when \<open>jsonrpc\<close>, \<open>id\<close>, \<open>result\<close> or
  \<open>protocolVersion\<close> is missing; an \<open>AssertionError\<close> when \<open>jsonrpc\<close>, \<open>id\<close> or
  \<open>protocolVersion\<close> has another value, when an \<open>error\<close> member is present, or when
  \<open>serverInfo\<close> is missing. And \<open>main\<close> returns 0 only if the first line read from the
  proxy parses to a response for which the assertions hold.
\<close>

theorem initialize_response_outcome:
  "(check_initialize response = Inr () \<longleftrightarrow>
      (\<exists>kvs i res.
         response = JDict kvs \<and> map_of kvs (str ''jsonrpc'') = Some (JStr (str ''2.0'')) \<and>
         map_of kvs (str ''id'') = Some i \<and> (i = JInt 1 \<or> i = JFloat (Finite 1) \<or> i = JBool True) \<and>
         str ''error'' \<notin> fst ` set kvs \<and>
         map_of kvs (str ''result'') = Some (JDict res) \<and>
         map_of res (str ''protocolVersion'') = Some (JStr (str ''2024-11-05'')) \<and>
         str ''serverInfo'' \<in> fst ` set res)) \<and>
   check_initialize response =
     (case response of
        JDict kvs \<Rightarrow>
          (case map_of kvs (str ''jsonrpc'') of
             None \<Rightarrow> Inl (KeyError (str ''jsonrpc''))
           | Some v \<Rightarrow>
               if v \<noteq> JStr (str ''2.0'') then Inl (AssertionError ''Invalid JSON-RPC version'' None)
               else (case map_of kvs (str ''id'') of
                  None \<Rightarrow> Inl (KeyError (str ''id''))
                | Some i \<Rightarrow>
                    if \<not> (i = JInt 1 \<or> i = JFloat (Finite 1) \<or> i = JBool True)
                    then Inl (AssertionError ''Invalid response ID'' None)
                    else (case map_of kvs (str ''error'') of
                       Some err \<Rightarrow> Inl (AssertionError ''Initialize failed'' (Some err))
                     | None \<Rightarrow>
                         (case map_of kvs (str ''result'') of
                            None \<Rightarrow> Inl (KeyError (str ''result''))
                          | Some (JDict members) \<Rightarrow>
                              (case map_of members (str ''protocolVersion'') of
                                 None \<Rightarrow> Inl (KeyError (str ''protocolVersion''))
                               | Some pv \<Rightarrow>
                                   if pv \<noteq> JStr (str ''2024-11-05'')
                                   then Inl (AssertionError ''Wrong protocol version'' None)
                                   else if map_of members (str ''serverInfo'') = None
                                   then Inl (AssertionError ''Missing serverInfo'' None)
                                   else Inr ())
                          | Some _ \<Rightarrow> Inl TypeError))))
      | _ \<Rightarrow> Inl TypeError) \<and>
   (fst (main ev) = Inr 0 \<longrightarrow>
      passes ev (request_initialize, check_initialize) (fst (readline (proxy_stdout ev))))"
proof (intro conjI)
  show "check_initialize response = Inr () \<longleftrightarrow>
      (\<exists>kvs i res.
         response = JDict kvs \<and> map_of kvs (str ''jsonrpc'') = Some (JStr (str ''2.0'')) \<and>
         map_of kvs (str ''id'') = Some i \<and> (i = JInt 1 \<or> i = JFloat (Finite 1) \<or> i = JBool True) \<and>
         str ''error'' \<notin> fst ` set kvs \<and>
         map_of kvs (str ''result'') = Some (JDict res) \<and>
         map_of res (str ''protocolVersion'') = Some (JStr (str ''2024-11-05'')) \<and>
         str ''serverInfo'' \<in> fst ` set res)"
    by (simp add: check_initialize_iff eq_int_1)
  show "fst (main ev) = Inr 0 \<longrightarrow>
      passes ev (request_initialize, check_initialize) (fst (readline (proxy_stdout ev)))"
    using main_0_passes(1) [of ev] by simp
qed (rule check_initialize_eq)

theorem initialize_response_outcome_witness:
  "fst (main (env_of_responses good_responses)) = Inr 0 \<and>
   passes (env_of_responses good_responses) (request_initialize, check_initialize)
     (fst (readline (proxy_stdout (env_of_responses good_responses))))"
  using initialize_response_outcome [of response_initialize "env_of_responses good_responses"]
    good_run
  by (simp only: simp_thms)

text \<open>
  A response to \<open>initialize\<close> without \<open>protocolVersion\<close> fails with a \<open>KeyError\<close>, not
  with an assertion; a response whose \<open>id\<close> is \<open>true\<close> is accepted.
\<close>

theorem initialize_response_counterexample:
  "check_initialize
     (JDict [(str ''jsonrpc'', JStr (str ''2.0'')), (str ''id'', JInt 1),
             (str ''result'', JDict [(str ''serverInfo'', JDict [])])]) =
     Inl (KeyError (str ''protocolVersion'')) \<and>
   check_initialize
     (JDict [(str ''jsonrpc'', JStr (str ''2.0'')), (str ''id'', JBool True),
             (str ''result'', JDict [(str ''protocolVersion'', JStr (str ''2024-11-05'')),
                                     (str ''serverInfo'', JDict [])])]) = Inr ()"
  by (simp add: check_initialize_eq str_eq_iff)

text \<open>
  C2. The fourth request carries the method name \<open>list_tools\<close>. The assertions on its
  response hold exactly when the response is an object with \<open>jsonrpc\<close> \<open>2.0\<close>, an \<open>id\<close>
  equal to 4 and an \<open>error\<close> member that is an object whose \<open>code\<close> is the number
  \<open>-32601\<close>; \<open>main\<close> returns 0 only if the fourth line read from the proxy parses to
  such a response, so a response without an error or with another code fails the harness.
\<close>

theorem invalid_method_requires_method_not_found:
  "subscript request_invalid_method (str ''method'') = Inr (JStr (str ''list_tools'')) \<and>
   (check_invalid_method response = Inr () \<longleftrightarrow>
      (\<exists>kvs i err code.
         response = JDict kvs \<and> map_of kvs (str ''jsonrpc'') = Some (JStr (str ''2.0'')) \<and>
         map_of kvs (str ''id'') = Some i \<and> (i = JInt 4 \<or> i = JFloat (Finite 4)) \<and>
         map_of kvs (str ''error'') = Some (JDict err) \<and> map_of err (str ''code'') = Some code \<and>
         (code = JInt (- 32601) \<or> code = JFloat (Finite (- 32601))))) \<and>
   (fst (main ev) = Inr 0 \<longrightarrow>
      passes ev (request_invalid_method, check_invalid_method)
        (read_lines 4 (proxy_stdout ev) ! 3))"
  using main_0_passes(4) [of ev]
  by (simp add: check_invalid_method_iff eq_int_numeral eq_int_neg_numeral
      request_invalid_method_def subscript_def str_eq_iff)

theorem invalid_method_requires_method_not_found_witness:
  "fst (main (env_of_responses good_responses)) = Inr 0 \<and>
   passes (env_of_responses good_responses) (request_invalid_method, check_invalid_method)
     (read_lines 4 (proxy_stdout (env_of_responses good_responses)) ! 3)"
  using invalid_method_requires_method_not_found
    [of response_method_not_found "env_of_responses good_responses"] good_run
  by (simp only: simp_thms)




text \<open>
  C4 (as amended). When \<open>main\<close> returns 0, each of the first four lines read from the proxy
  parses to a response whose \<open>id\<close> member compares equal, under Python's \<open>==\<close>, to the id
  of the request sent before it (1, 2, 3, 4 in this order): the integer itself, the float
  of the same value, or, for the id 1, \<open>true\<close>. A response with any other \<open>id\<close>, or
  without one, therefore fails the harness.
\<close>

theorem response_ids_checked:
  assumes "fst (main ev) = Inr 0"
  shows "map (\<lambda>r. subscript r (str ''id''))
           [request_initialize, request_tools_list, request_tools_call, request_invalid_method] =
           [Inr (JInt 1), Inr (JInt 2), Inr (JInt 3), Inr (JInt 4)] \<and>
         (\<exists>r1 r2 r3 r4 i1 i2 i3 i4.
            map (json_loads ev) (read_lines 4 (proxy_stdout ev)) =
              [Inr r1, Inr r2, Inr r3, Inr r4] \<and>
            subscript r1 (str ''id'') = Inr i1 \<and>
            (i1 = JInt 1 \<or> i1 = JFloat (Finite 1) \<or> i1 = JBool True) \<and>
            subscript r2 (str ''id'') = Inr i2 \<and> (i2 = JInt 2 \<or> i2 = JFloat (Finite 2)) \<and>
            subscript r3 (str ''id'') = Inr i3 \<and> (i3 = JInt 3 \<or> i3 = JFloat (Finite 3)) \<and>
            subscript r4 (str ''id'') = Inr i4 \<and> (i4 = JInt 4 \<or> i4 = JFloat (Finite 4)))"
proof -
  let ?ls = "read_lines 4 (proxy_stdout ev)"
  from main_0_passes [OF assms] obtain r1 r2 r3 r4 where
    l: "json_loads ev (fst (readline (proxy_stdout ev))) = Inr r1" "json_loads ev (?ls ! 1) = Inr r2"
       "json_loads ev (?ls ! 2) = Inr r3" "json_loads ev (?ls ! 3) = Inr r4" and
    c: "check_initialize r1 = Inr ()" "check_tools_list r2 = Inr ()"
       "check_tools_call r3 = Inr ()" "check_invalid_method r4 = Inr ()"
    unfolding passes_response by auto
  from c(1) obtain i1 where i1: "subscript r1 (str ''id'') = Inr i1" "eq_int i1 1"
    unfolding check_initialize_iff by (auto simp: subscript_def)
  from check_tools_list_id [OF c(2)] obtain i2 where
    i2: "subscript r2 (str ''id'') = Inr i2" "eq_int i2 2"
    by (auto simp: subscript_def)
  from c(3) obtain i3 where i3: "subscript r3 (str ''id'') = Inr i3" "eq_int i3 3"
    unfolding check_tools_call_iff by (auto simp: subscript_def eq_int_numeral)
  from c(4) obtain i4 where i4: "subscript r4 (str ''id'') = Inr i4" "eq_int i4 4"
    unfolding check_invalid_method_iff by (auto simp: subscript_def)
  have lines: "map (json_loads ev) ?ls = [Inr r1, Inr r2, Inr r3, Inr r4]"
    using l by (simp add: read_lines_4)
  have reqs: "map (\<lambda>r. subscript r (str ''id''))
           [request_initialize, request_tools_list, request_tools_call, request_invalid_method] =
           [Inr (JInt 1), Inr (JInt 2), Inr (JInt 3), Inr (JInt 4)]"
    by (simp add: request_initialize_def request_tools_list_def request_tools_call_def
        request_invalid_method_def subscript_def str_eq_iff)
  from i1(2) i2(2) i3(2) i4(2) have ids:
    "i1 = JInt 1 \<or> i1 = JFloat (Finite 1) \<or> i1 = JBool True"
    "i2 = JInt 2 \<or> i2 = JFloat (Finite 2)" "i3 = JInt 3 \<or> i3 = JFloat (Finite 3)"
    "i4 = JInt 4 \<or> i4 = JFloat (Finite 4)"
    by (simp_all add: eq_int_1 eq_int_numeral)
  show ?thesis
    by (intro conjI exI) (rule reqs lines i1(1) i2(1) i3(1) i4(1) ids)+
qed

theorem response_ids_checked_witness:
  "fst (main (env_of_responses good_responses)) = Inr 0 \<and>
   (\<exists>r1 r2 r3 r4 i1 i2 i3 i4.
      map (json_loads (env_of_responses good_responses))
        (read_lines 4 (proxy_stdout (env_of_responses good_responses))) =
        [Inr r1, Inr r2, Inr r3, Inr r4] \<and>
      subscript r1 (str ''id'') = Inr i1 \<and>
      (i1 = JInt 1 \<or> i1 = JFloat (Finite 1) \<or> i1 = JBool True) \<and>
      subscript r2 (str ''id'') = Inr i2 \<and> (i2 = JInt 2 \<or> i2 = JFloat (Finite 2)) \<and>
      subscript r3 (str ''id'') = Inr i3 \<and> (i3 = JInt 3 \<or> i3 = JFloat (Finite 3)) \<and>
      subscript r4 (str ''id'') = Inr i4 \<and> (i4 = JInt 4 \<or> i4 = JFloat (Finite 4)))"
  using response_ids_checked [OF good_run] good_run by (simp only: simp_thms)

text \<open>
  A first response whose \<open>id\<close> is \<open>true\<close>, not 1, does not fail the harness: with the other
  three responses as specified, \<open>main\<close> returns 0.
\<close>

theorem response_id_counterexample:
  "fst (main (env_of_responses
     [JDict [(str ''jsonrpc'', JStr (str ''2.0'')), (str ''id'', JBool True),
             (str ''result'', JDict [(str ''protocolVersion'', JStr (str ''2024-11-05'')),
                                     (str ''serverInfo'', JDict [])])],
      response_tools_list, response_tools_call_error, response_method_not_found])) = Inr 0"
proof (rule main_env_of_responses(1)
    [OF _ good_responses_newline(2-4) _ _ good_responses_pass(2-4)])
  let ?r = "JDict [(str ''jsonrpc'', JStr (str ''2.0'')), (str ''id'', JBool True),
             (str ''result'', JDict [(str ''protocolVersion'', JStr (str ''2024-11-05'')),
                                     (str ''serverInfo'', JDict [])])]"
  show "newline \<notin> set (json_dumps (\<lambda>f. []) ?r)"
    by code_simp
  show "distinct (map (json_dumps (\<lambda>f. []))
      [?r, response_tools_list, response_tools_call_error, response_method_not_found])"
    by code_simp
  show "check_initialize ?r = Inr ()"
    by code_simp
qed

section \<open>The channel and the runs of the harness\<close>










lemma filter_exchanges:
  "filter pipe_call (concat (map2 (exchange ev) rs os)) = concat (map2 (exchange ev) rs os)"
proof (induction rs arbitrary: os)
  case Nil
  then show ?case by simp
next
  case (Cons r rs)
  then show ?case
    by (cases os) (simp_all add: exchange_def pipe_call_def)
qed

lemma main_started_calls:
  assumes "started ev"
  shows "\<exists>p fin. snd (main ev) = Some p \<and>
           calls p = calls (snd (run_tests ev (started_process ev) tests)) @ fin \<and>
           filter pipe_call fin = []"
proof -
  have b: "snd (try_body ev (started_process ev)) = snd (run_tests ev (started_process ev) tests)"
    by (simp add: try_body_eq)
  have "snd (main ev) = Some (snd (try_body ev (started_process ev))) \<or>
      snd (main ev) =
        Some ((snd (try_body ev (started_process ev)))
                \<lparr>calls := calls (snd (try_body ev (started_process ev))) @ [Close]\<rparr>) \<or>
      snd (main ev) =
        Some ((snd (try_body ev (started_process ev)))
                \<lparr>calls := calls (snd (try_body ev (started_process ev))) @
                           [Close, Terminate, Wait 5]\<rparr>)"
    by (simp add: main_started [OF assms])
  then consider
    (blocked) "snd (main ev) = Some (snd (try_body ev (started_process ev)))"
    | (broken) "snd (main ev) =
        Some ((snd (try_body ev (started_process ev)))
                \<lparr>calls := calls (snd (try_body ev (started_process ev))) @ [Close]\<rparr>)"
    | (cleaned) "snd (main ev) =
        Some ((snd (try_body ev (started_process ev)))
                \<lparr>calls := calls (snd (try_body ev (started_process ev))) @
                           [Close, Terminate, Wait 5]\<rparr>)"
    by blast
  then show ?thesis
  proof cases
    case blocked
    then show ?thesis
      by (simp add: b)
  next
    case broken
    then show ?thesis
      by (simp add: b pipe_call_def)
  next
    case cleaned
    then show ?thesis
      by (simp add: b pipe_call_def)
  qed
qed

text \<open>
  C5. The four requests are, in this order, \<open>initialize\<close>, \<open>tools/list\<close>,
  \<open>tools/call\<close> and \<open>list_tools\<close> with the ids 1, 2, 3 and 4. Whenever \<open>main\<close> has
  created the process, the operations it performed on the pipes are the complete
  exchanges of the first \<open>k\<close> requests, \<open>k \<le> 4\<close>, in this order, each one written,
  flushed and answered by a \<^verbatim>\<open>readline()\<close> that returned the next line of the
  proxy's output before the next request is written; they are followed by nothing, or by
  the unfinished exchange of the next request, which stopped at the write or at the
  \<^verbatim>\<open>readline()\<close>. When \<open>main\<close> returns 0 the operations on the pipes are
  exactly the four complete exchanges. When the proxy has passed the start-up check the
  first request is written right after it, and when it has not, nothing is sent.
\<close>

theorem main_never_pipelines:
  assumes "snd (main ev) = Some p"
  shows "map (\<lambda>r. (subscript r (str ''method''), subscript r (str ''id'')))
           [request_initialize, request_tools_list, request_tools_call, request_invalid_method] =
           [(Inr (JStr (str ''initialize'')), Inr (JInt 1)),
            (Inr (JStr (str ''tools/list'')), Inr (JInt 2)),
            (Inr (JStr (str ''tools/call'')), Inr (JInt 3)),
            (Inr (JStr (str ''list_tools'')), Inr (JInt 4))] \<and>
         (\<exists>k rest. k \<le> 4 \<and>
            filter pipe_call (calls p) =
              concat (map2 (exchange ev)
                [request_initialize, request_tools_list, request_tools_call,
                 request_invalid_method]
                (map Inr (read_lines k (proxy_stdout ev)))) @ rest \<and>
            (rest = [] \<or>
             k < 4 \<and>
             (rest =
                [Write (json_dumps (float_repr ev)
                   ([request_initialize, request_tools_list, request_tools_call,
                     request_invalid_method] ! k) @ [newline])] \<or>
              (\<exists>st. rest =
                 exchange ev
                   ([request_initialize, request_tools_list, request_tools_call,
                     request_invalid_method] ! k) (Inl st))))) \<and>
         (fst (main ev) = Inr 0 \<longrightarrow>
            filter pipe_call (calls p) =
              concat (map2 (exchange ev)
                [request_initialize, request_tools_list, request_tools_call,
                 request_invalid_method]
                (map Inr (read_lines 4 (proxy_stdout ev))))) \<and>
         (poll_result ev = None \<longrightarrow>
            (\<exists>more. calls p =
               Poll None # Write (json_dumps (float_repr ev) request_initialize @ [newline]) # more)) \<and>
         (poll_result ev \<noteq> None \<longrightarrow> calls p = [Poll (poll_result ev), StderrRead])"
proof -
  let ?reqs = "[request_initialize, request_tools_list, request_tools_call, request_invalid_method]"
  have reqs: "map (\<lambda>r. (subscript r (str ''method''), subscript r (str ''id''))) ?reqs =
           [(Inr (JStr (str ''initialize'')), Inr (JInt 1)),
            (Inr (JStr (str ''tools/list'')), Inr (JInt 2)),
            (Inr (JStr (str ''tools/call'')), Inr (JInt 3)),
            (Inr (JStr (str ''list_tools'')), Inr (JInt 4))]"
    by (simp add: request_initialize_def request_tools_list_def request_tools_call_def
        request_invalid_method_def subscript_def str_eq_iff)
  have fsts: "map fst tests = ?reqs"
    by (simp add: tests_def)
  have shape: "\<exists>k rest. k \<le> 4 \<and>
      filter pipe_call (calls p) =
        concat (map2 (exchange ev) ?reqs (map Inr (read_lines k (proxy_stdout ev)))) @ rest \<and>
      (rest = [] \<or>
       k < 4 \<and>
       (rest = [Write (json_dumps (float_repr ev) (?reqs ! k) @ [newline])] \<or>
        (\<exists>st. rest = exchange ev (?reqs ! k) (Inl st))))"
    and zero: "fst (main ev) = Inr 0 \<longrightarrow>
      filter pipe_call (calls p) =
        concat (map2 (exchange ev) ?reqs (map Inr (read_lines 4 (proxy_stdout ev))))"
    and first: "poll_result ev = None \<longrightarrow>
      (\<exists>more. calls p =
         Poll None # Write (json_dumps (float_repr ev) request_initialize @ [newline]) # more)"
    and early: "poll_result ev \<noteq> None \<longrightarrow> calls p = [Poll (poll_result ev), StderrRead]"
  proof -
    show "\<exists>k rest. k \<le> 4 \<and>
      filter pipe_call (calls p) =
        concat (map2 (exchange ev) ?reqs (map Inr (read_lines k (proxy_stdout ev)))) @ rest \<and>
      (rest = [] \<or>
       k < 4 \<and>
       (rest = [Write (json_dumps (float_repr ev) (?reqs ! k) @ [newline])] \<or>
        (\<exists>st. rest = exchange ev (?reqs ! k) (Inl st))))"
    proof (cases "started ev")
      case False
      with assms have "calls p = [Poll (poll_result ev), StderrRead]"
        by (auto simp: main_not_started split: if_splits sum.splits bool.splits option.splits)
      then show ?thesis
        by (intro exI [of _ 0] exI [of _ "[]"]) (simp add: pipe_call_def)
    next
      case True
      from main_started_calls [OF True] assms obtain fin where
        c: "calls p = calls (snd (run_tests ev (started_process ev) tests)) @ fin"
        and fin: "filter pipe_call fin = []"
        by auto
      from run_tests_calls [of tests ev "started_process ev"] obtain k rest where
        k: "k \<le> length tests"
        and l: "calls (snd (run_tests ev (started_process ev) tests)) =
          calls (started_process ev) @
          concat (map2 (exchange ev) (map fst tests)
            (map Inr (read_lines k (unread (started_process ev))))) @ rest"
        and r: "rest = [] \<or> k < length tests \<and>
          (rest = [Write (json_dumps (float_repr ev) (fst (tests ! k)) @ [newline])] \<or>
           (\<exists>st. rest = exchange ev (fst (tests ! k)) (Inl st)))"
        by blast
      have nth: "k < length tests \<Longrightarrow> fst (tests ! k) = ?reqs ! k"
        unfolding fsts [symmetric] by simp
      have frest: "filter pipe_call rest = rest"
        using r by (auto simp: pipe_call_def exchange_def)
      have "filter pipe_call (calls p) =
          concat (map2 (exchange ev) ?reqs (map Inr (read_lines k (proxy_stdout ev)))) @ rest"
        unfolding c l fsts
        by (simp add: filter_exchanges frest fin started_process_simps pipe_call_def)
      moreover have "rest = [] \<or> k < 4 \<and>
          (rest = [Write (json_dumps (float_repr ev) (?reqs ! k) @ [newline])] \<or>
           (\<exists>st. rest = exchange ev (?reqs ! k) (Inl st)))"
        using r nth by (auto simp: length_tests)
      moreover have "k \<le> 4"
        using k by (simp add: length_tests)
      ultimately show ?thesis
        by blast
    qed
    show "fst (main ev) = Inr 0 \<longrightarrow>
      filter pipe_call (calls p) =
        concat (map2 (exchange ev) ?reqs (map Inr (read_lines 4 (proxy_stdout ev))))"
    proof
      assume z: "fst (main ev) = Inr 0"
      then have s: "started ev" and a: "all_tests_pass ev"
        by (simp_all add: main_returns_0_iff)
      from main_started_calls [OF s] assms obtain fin where
        c: "calls p = calls (snd (run_tests ev (started_process ev) tests)) @ fin"
        and fin: "filter pipe_call fin = []"
        by auto
      from a have "fst (try_body ev (started_process ev)) = Inr 0"
        by (simp add: body_passes)
      then have ok: "fst (run_tests ev (started_process ev) tests) = Inr ()"
        by (cases "fst (run_tests ev (started_process ev) tests)") (simp_all add: try_body_eq)
      from run_tests_calls [of tests ev "started_process ev"] ok have
        l: "calls (snd (run_tests ev (started_process ev) tests)) =
          calls (started_process ev) @
          concat (map2 (exchange ev) (map fst tests)
            (map Inr (read_lines (length tests) (unread (started_process ev)))))"
        by auto
      show "filter pipe_call (calls p) =
        concat (map2 (exchange ev) ?reqs (map Inr (read_lines 4 (proxy_stdout ev))))"
        unfolding c l fsts length_tests
        by (simp add: filter_exchanges fin started_process_simps pipe_call_def)
    qed
    show "poll_result ev = None \<longrightarrow>
      (\<exists>more. calls p =
         Poll None # Write (json_dumps (float_repr ev) request_initialize @ [newline]) # more)"
    proof
      assume n: "poll_result ev = None"
      have s: "started ev"
      proof (rule ccontr)
        assume "\<not> started ev"
        with assms n show False
          by (auto simp: main_not_started started_def
              split: if_splits sum.splits bool.splits option.splits)
      qed
      from main_started_calls [OF s] assms obtain fin where
        c: "calls p = calls (snd (run_tests ev (started_process ev) tests)) @ fin"
        by auto
      have t: "tests = (request_initialize, check_initialize) # tl tests"
        by (simp add: tests_def)
      from run_tests_first_write [of ev "started_process ev" "(request_initialize, check_initialize)"
          "tl tests"] obtain more where
        "calls (snd (run_tests ev (started_process ev) tests)) =
           calls (started_process ev) @
           Write (json_dumps (float_repr ev) request_initialize @ [newline]) # more"
        unfolding t [symmetric] by auto
      then show "\<exists>more. calls p =
         Poll None # Write (json_dumps (float_repr ev) request_initialize @ [newline]) # more"
        unfolding c by (simp add: started_process_simps n)
    qed
    show "poll_result ev \<noteq> None \<longrightarrow> calls p = [Poll (poll_result ev), StderrRead]"
    proof
      assume "poll_result ev \<noteq> None"
      then have "\<not> started ev"
        by (simp add: started_def)
      with assms show "calls p = [Poll (poll_result ev), StderrRead]"
        by (auto simp: main_not_started split: if_splits sum.splits bool.splits option.splits)
    qed
  qed
  from reqs shape zero first early show ?thesis
    by (intro conjI)
qed

theorem main_never_pipelines_witness:
  "\<exists>p. snd (main (env_of_responses good_responses)) = Some p \<and>
     fst (main (env_of_responses good_responses)) = Inr 0 \<and>
     poll_result (env_of_responses good_responses) = None \<and>
     filter pipe_call (calls p) =
       concat (map2 (exchange (env_of_responses good_responses))
         [request_initialize, request_tools_list, request_tools_call, request_invalid_method]
         (map Inr
            [json_dumps (\<lambda>f. []) response_initialize @ [newline],
             json_dumps (\<lambda>f. []) response_tools_list @ [newline],
             json_dumps (\<lambda>f. []) response_tools_call_error @ [newline],
             json_dumps (\<lambda>f. []) response_method_not_found @ [newline]])) \<and>
     (\<exists>more. calls p =
        Poll None #
        Write (json_dumps (float_repr (env_of_responses good_responses)) request_initialize @
               [newline]) # more)"
proof -
  from main_started_calls [OF env_of_responses_started, of good_responses]
  obtain p where p: "snd (main (env_of_responses good_responses)) = Some p"
    by blast
  have n: "poll_result (env_of_responses good_responses) = None"
    by (simp add: env_of_responses_def)
  from main_never_pipelines [OF p] good_run n have
    "filter pipe_call (calls p) =
       concat (map2 (exchange (env_of_responses good_responses))
         [request_initialize, request_tools_list, request_tools_call, request_invalid_method]
         (map Inr (read_lines 4 (proxy_stdout (env_of_responses good_responses)))))"
    and "\<exists>more. calls p =
        Poll None #
        Write (json_dumps (float_repr (env_of_responses good_responses)) request_initialize @
               [newline]) # more"
    by simp_all
  with p good_run n show ?thesis
    unfolding good_lines by blast
qed








section \<open>The proxy's session state machine and tool catalogue\<close>

lemma handle_request_not_ready:
  "state s \<noteq> Ready \<Longrightarrow> req_method rq \<noteq> ''initialize'' \<Longrightarrow>
     handle_request px s rq = (Error (req_id rq) InvalidRequest ''server not initialized'', s)"
  by (simp add: handle_request_def)

lemma handle_request_initialize:
  "req_method rq = ''initialize'' \<Longrightarrow> handle_request px s rq = handle_initialize px s rq"
  by (simp add: handle_request_def dispatch_def)





text \<open>
  C8. While the session is not \<open>Ready\<close>, every request other than \<open>initialize\<close> is
  answered with the \<open>InvalidRequest\<close> error (code \<open>-32600\<close>) and leaves the session as it
  was: a run that starts with such requests answers each of them with that error and
  serves the rest of the run from the unchanged session. A request is accepted in such a
  session exactly when its method is \<open>initialize\<close>, and it then makes the session \<open>Ready\<close>.
\<close>

theorem requests_before_initialize_rejected:
  assumes "state s \<noteq> Ready" and "\<forall>rq \<in> set early. req_method rq \<noteq> ''initialize''"
  shows "serve px s (early @ rest) =
           (map (\<lambda>rq. Error (req_id rq) InvalidRequest ''server not initialized'') early @
              fst (serve px s rest),
            snd (serve px s rest)) \<and>
         InvalidRequest = - 32600 \<and>
         ((\<exists>result. fst (handle_request px s rq) = Result (req_id rq) result) \<longleftrightarrow>
            req_method rq = ''initialize'') \<and>
         (req_method rq = ''initialize'' \<longrightarrow> state (snd (handle_request px s rq)) = Ready)"
proof -
  from assms have "serve px s (early @ rest) =
           (map (\<lambda>rq. Error (req_id rq) InvalidRequest ''server not initialized'') early @
              fst (serve px s rest),
            snd (serve px s rest))"
  proof (induction early)
    case Nil
    then show ?case by simp
  next
    case (Cons rq early)
    then show ?case
      by (simp add: handle_request_not_ready)
  qed
  moreover have "(\<exists>result. fst (handle_request px s rq) = Result (req_id rq) result) \<longleftrightarrow>
            req_method rq = ''initialize''"
    using assms(1)
    by (cases "req_method rq = ''initialize''")
      (simp_all add: handle_request_initialize handle_initialize_def handle_request_not_ready)
  moreover have "req_method rq = ''initialize'' \<longrightarrow> state (snd (handle_request px s rq)) = Ready"
    by (simp add: handle_request_initialize handle_initialize_def)
  ultimately show ?thesis
    by (simp add: InvalidRequest_def)
qed

theorem requests_before_initialize_rejected_witness:
  "state initial_session \<noteq> Ready \<and>
   req_method example_tools_list \<noteq> ''initialize'' \<and>
   req_method example_tools_call \<noteq> ''initialize'' \<and>
   serve example_proxy initial_session
     ([example_tools_list, example_tools_call] @ [example_initialize, example_tools_list]) =
     ([Error (Some (JInt 2)) (- 32600) ''server not initialized'',
       Error (Some (JInt 3)) (- 32600) ''server not initialized'',
       fst (handle_request example_proxy initial_session example_initialize),
       handle_tools_list example_proxy example_tools_list],
      \<lparr>state = Ready, negotiatedProtocolVersion = Some ''2024-11-05''\<rparr>)"
proof -
  have s: "state initial_session \<noteq> Ready"
    by (simp add: initial_session_def)
  have e: "\<forall>rq \<in> set [example_tools_list, example_tools_call]. req_method rq \<noteq> ''initialize''"
    by (simp add: example_tools_list_def example_tools_call_def)
  from requests_before_initialize_rejected
    [OF s e, of example_proxy "[example_initialize, example_tools_list]"] s e
  show ?thesis
    by (simp add: initial_session_def example_tools_list_def example_tools_call_def
        example_initialize_def InvalidRequest_def handle_request_def dispatch_def
        handle_initialize_def protocol_version_def)
qed



end
